theory Spec2Isabelle
  imports Main
begin

text \<open>
  The session and flow orchestration of the messaging bot: the pagination resolver of
  utils/pagination.js and, from index.js, the authentication gate, the start of an
  inbound event with its idle timeout, the gates of the dispatcher, and the handlers
  for login, logout, support requests, incoming media, registration and the one-time
  code. Each function is a definition that computes what the source computes; the
  collaborators outside these two files are parameters.
\<close>

section \<open>Strings as the handlers read them\<close>

text \<open>
  A message is a list of characters. A character stands for one code unit below 256, so
  the white space that \<^verbatim>\<open>String.prototype.trim\<close> and the regular
  expression class \<^verbatim>\<open>\s\<close> strip is: tab, line feed, vertical tab,
  form feed, carriage return, space and the no-break space 0xA0. The class
  \<^verbatim>\<open>\d\<close> is the ten ASCII digits only.
\<close>

definition isWhiteSpace :: "char \<Rightarrow> bool" where
  "isWhiteSpace c =
     (let n = (of_char c :: nat)
      in n = 9 \<or> n = 10 \<or> n = 11 \<or> n = 12 \<or> n = 13 \<or> n = 32 \<or> n = 160)"

definition isDigit :: "char \<Rightarrow> bool" where
  "isDigit c = (let n = (of_char c :: nat) in 48 \<le> n \<and> n \<le> 57)"

definition digitVal :: "char \<Rightarrow> int" where
  "digitVal c = int (of_char c) - 48"

definition trim :: "string \<Rightarrow> string" where
  "trim s = rev (dropWhile isWhiteSpace (rev (dropWhile isWhiteSpace s)))"

text \<open>
  \<^verbatim>\<open>toLowerCase\<close> on code units below 256: the ASCII capitals and the
  Latin-1 capitals 0xC0..0xDE (without the multiplication sign 0xD7) move up by 32, every
  other character stays.
\<close>

definition lowerChar :: "char \<Rightarrow> char" where
  "lowerChar c =
     (let n = (of_char c :: nat)
      in if (65 \<le> n \<and> n \<le> 90) \<or> (192 \<le> n \<and> n \<le> 222 \<and> n \<noteq> 215)
         then char_of (n + 32) else c)"

definition toLowerCase :: "string \<Rightarrow> string" where
  "toLowerCase s = map lowerChar s"

text \<open>\<^verbatim>\<open>/^\d+$/\<close>: one digit or more, and nothing else.\<close>

definition allDigits :: "string \<Rightarrow> bool" where
  "allDigits s = (s \<noteq> [] \<and> list_all isDigit s)"

subsection \<open>Numbers\<close>

text \<open>
  A JavaScript number is a double. The numbers the functions below compute are integers,
  infinities or \<^verbatim>\<open>NaN\<close>; an integer result of an operation is the exact
  result rounded to the nearest double, ties to the even significand. \<open>excessBits a\<close>
  is the number of low bits of \<open>a\<close> that do not fit in a significand of 53 bits, and
  \<open>roundInt\<close> rounds them away. A rounded value of magnitude \<open>2 ^ 1024\<close> or
  more is an infinity.
\<close>

datatype jsnumber = NaN | Finite int | PosInfinity | NegInfinity

function excessBits :: "int \<Rightarrow> nat" where
  "excessBits a = (if a < 2 ^ 53 then 0 else Suc (excessBits (a div 2)))"
  by pat_completeness auto
termination
  by (relation "measure (\<lambda>a. nat a)") auto

declare excessBits.simps [simp del]

definition roundInt :: "int \<Rightarrow> int" where
  "roundInt n =
     (let a = \<bar>n\<bar>;
          k = excessBits a;
          q = a div 2 ^ k;
          r = a mod 2 ^ k;
          up = (2 * r > 2 ^ k \<or> (2 * r = 2 ^ k \<and> odd q));
          m = (if up then q + 1 else q) * 2 ^ k
      in if n < 0 then - m else m)"

definition toNumber :: "int \<Rightarrow> jsnumber" where
  "toNumber n =
     (let v = roundInt n
      in if v \<ge> 2 ^ 1024 then PosInfinity
         else if v \<le> - (2 ^ 1024) then NegInfinity
         else Finite v)"

text \<open>
  \<^verbatim>\<open>x * c\<close> for a positive integer constant \<open>c\<close>, and the comparison
  \<^verbatim>\<open>x > y\<close> of an integer with a number (false against \<^verbatim>\<open>NaN\<close>).
\<close>

definition timesConst :: "jsnumber \<Rightarrow> int \<Rightarrow> jsnumber" where
  "timesConst x c =
     (case x of
        NaN \<Rightarrow> NaN
      | Finite v \<Rightarrow> toNumber (v * c)
      | PosInfinity \<Rightarrow> PosInfinity
      | NegInfinity \<Rightarrow> NegInfinity)"

definition exceeds :: "int \<Rightarrow> jsnumber \<Rightarrow> bool" where
  "exceeds x y =
     (case y of
        NaN \<Rightarrow> False
      | Finite v \<Rightarrow> x > v
      | PosInfinity \<Rightarrow> False
      | NegInfinity \<Rightarrow> True)"

text \<open>
  \<^verbatim>\<open>parseInt(s, 10)\<close>: leading white space, an optional sign, then the
  longest run of digits, read left to right and rounded to a double;
  \<^verbatim>\<open>NaN\<close> when there is no digit where one is expected. Every digit
  counts, as in V8 (the language lets an implementation read the digits after the
  twentieth as zeros).
\<close>

definition digitsValue :: "string \<Rightarrow> int" where
  "digitsValue ds = foldl (\<lambda>acc c. acc * 10 + digitVal c) 0 ds"

definition parseInt :: "string \<Rightarrow> jsnumber" where
  "parseInt s =
     (let t = dropWhile isWhiteSpace s;
          neg = (t \<noteq> [] \<and> hd t = CHR ''-'');
          u = (if t \<noteq> [] \<and> (hd t = CHR ''-'' \<or> hd t = CHR ''+'') then tl t else t);
          ds = takeWhile isDigit u
      in if ds = [] then NaN
         else toNumber (if neg then - digitsValue ds else digitsValue ds))"

section \<open>Pagination cursor manager (utils/pagination.js)\<close>

text \<open>
  \<^verbatim>\<open>parseNavigationCommand(message, currentPage, totalPages)\<close>. The message
  is \<open>None\<close> when the argument is not a string (null, undefined, a number); the empty
  string is falsy and is refused by the same first test. The page numbers are integers
  that are doubles; the sums \<^verbatim>\<open>currentPage + 1\<close> and
  \<^verbatim>\<open>currentPage - 1\<close> are rounded as every number is. The result
  \<open>None\<close> is \<^verbatim>\<open>null\<close>.
\<close>

definition parseNavigationCommand :: "string option \<Rightarrow> int \<Rightarrow> int \<Rightarrow> int option" where
  "parseNavigationCommand message currentPage totalPages =
     (case message of
        None \<Rightarrow> None
      | Some m \<Rightarrow>
          if m = [] then None
          else
            let nav = toLowerCase (trim m) in
            if nav = ''next'' \<and> currentPage < totalPages then Some (roundInt (currentPage + 1))
            else if nav = ''previous'' \<and> currentPage > 1 then Some (roundInt (currentPage - 1))
            else if allDigits (trim m)
              then (case parseInt (trim m) of
                      Finite n \<Rightarrow> if n \<ge> 1 \<and> n \<le> totalPages then Some n else None
                    | _ \<Rightarrow> None)
              else None)"

subsection \<open>The resolver as the specification words it\<close>

text \<open>
  The specification's three command shapes, stated without reference to the code: a
  word equal to "next" or "previous" up to the case of its letters, and a numeral, read
  in positional notation.
\<close>

definition sameUpToCase :: "string \<Rightarrow> string \<Rightarrow> bool" where
  "sameUpToCase s w = (length s = length w \<and> list_all2 (\<lambda>a b. lowerChar a = b) s w)"

definition positional :: "string \<Rightarrow> int" where
  "positional ds = (\<Sum>i < length ds. digitVal (ds ! i) * 10 ^ (length ds - 1 - i))"

definition resolveTarget_spec :: "string \<Rightarrow> int \<Rightarrow> int \<Rightarrow> int \<Rightarrow> bool" where
  "resolveTarget_spec cmd currentPage totalPages page =
     ((sameUpToCase cmd ''next'' \<and> currentPage < totalPages \<and> page = currentPage + 1)
    \<or> (sameUpToCase cmd ''previous'' \<and> currentPage > 1 \<and> page = currentPage - 1)
    \<or> (allDigits cmd \<and> page = positional cmd \<and> 1 \<le> page \<and> page \<le> totalPages))"

section \<open>Sessions, one-time-code records and the environment (index.js)\<close>

text \<open>
  The session row of the \<^verbatim>\<open>Session\<close> model: the conversational state and the
  free-form \<^verbatim>\<open>data\<close> object. The row is identified by its phone number, the
  key of the store below. A field of \<^verbatim>\<open>data\<close> is \<open>None\<close> when the
  key is absent or holds \<^verbatim>\<open>null\<close>: the handlers only test such a field for
  truthiness. \<open>otherFields\<close> stands for every named field the handlers modelled here
  never read (cart, order and appointment breadcrumbs).
\<close>

datatype session_state = NEW | REGISTERING | LOGGING_IN | LOGGED_IN | SUPPORT_CHAT

record regdata =
  rd_name :: string
  rd_email :: string
  rd_password :: string
  rd_phoneNumber :: string

record pagination =
  currentPage :: int
  totalPages :: int
  pageSize :: int

record session_data =
  registrationData :: "regdata option"
  userId :: "nat option"
  token :: "string option"
  tokenLastUsed :: "int option"
  waitingForOTPVerification :: "bool option"
  registrationAttempts :: "nat option"
  emailSendFailed :: "bool option"
  pendingPrescriptionUrl :: "string option"
  pendingPrescriptionExtractedText :: "string option"
  productPagination :: "pagination option"
  doctorPagination :: "pagination option"
  otherFields :: "(string \<times> string) list"

record session =
  state :: session_state
  data :: "session_data option"
  lastActivity :: int
  supportTeamId :: "nat option"

text \<open>\<^verbatim>\<open>{}\<close>: the data object with no field.\<close>

definition emptyData :: session_data where
  "emptyData =
     \<lparr> registrationData = None, userId = None, token = None, tokenLastUsed = None,
       waitingForOTPVerification = None, registrationAttempts = None, emailSendFailed = None,
       pendingPrescriptionUrl = None, pendingPrescriptionExtractedText = None,
       productPagination = None, doctorPagination = None, otherFields = [] \<rparr>"

text \<open>Truthiness of the optional fields: a number is truthy unless 0, a string unless empty.\<close>

definition truthyNum :: "nat option \<Rightarrow> bool" where
  "truthyNum v = (case v of None \<Rightarrow> False | Some n \<Rightarrow> n \<noteq> 0)"

definition truthyStr :: "string option \<Rightarrow> bool" where
  "truthyStr v = (case v of None \<Rightarrow> False | Some s \<Rightarrow> s \<noteq> [])"

definition truthyBool :: "bool option \<Rightarrow> bool" where
  "truthyBool v = (case v of None \<Rightarrow> False | Some b \<Rightarrow> b)"

text \<open>
  A row of the \<^verbatim>\<open>OTP\<close> model. \<open>otp_meta\<close> is
  \<^verbatim>\<open>meta.registrationData\<close>, the encrypted snapshot of the registration
  payload, \<open>None\<close> when \<^verbatim>\<open>meta\<close> is null. Times are milliseconds. The
  table is a list in creation order (\<^verbatim>\<open>createdAt\<close> is set by the store
  when the row is inserted), so \<^verbatim>\<open>order: [['createdAt', 'DESC']]\<close> with
  \<^verbatim>\<open>findOne\<close> returns the last matching row, and a row is saved by its
  position.
\<close>

record otp_record =
  otp_email :: string
  otp_code :: string
  otp_purpose :: string
  otp_isUsed :: bool
  otp_usedAt :: "int option"
  otp_expiresAt :: int
  otp_meta :: "string option"

record world =
  sessions :: "string \<Rightarrow> session option"
  otps :: "otp_record list"

record auth_result =
  res_userId :: "nat option"
  res_token :: "string option"

record parameters =
  p_name :: "string option"
  p_email :: "string option"
  p_password :: "string option"
  p_supportType :: "string option"

text \<open>
  The collaborators that are not part of index.js are parameters of every handler: the
  clock, the configuration, the domain API, the mail and support services, the security
  and validation helpers. One environment describes one inbound event: a call that can
  throw has a sum or an option as its outcome (\<open>Inl\<close> and \<open>None\<close> are the
  exception, with its message where the handler uses it). \<open>processMessage\<close> gives
  the intent and the parameters the classifier extracts; \<open>uploadImage\<close> gives the
  address of the uploaded file, \<open>extractPrescriptionFromBuffer\<close> the text read from
  it (\<open>None\<close> when it throws or reads nothing), \<open>savePrescription\<close> the
  verification status of the attached file. The session and one-time-code stores
  themselves are the model's state and their reads and writes succeed.
\<close>

record env =
  now :: int
  SESSION_IDLE_TIMEOUT_MINUTES :: "string option"
  rateLimitAllowed :: bool
  registerUser :: "regdata \<Rightarrow> string + auth_result"
  loginUser :: "string \<Rightarrow> string \<Rightarrow> string + auth_result"
  notifySupportTeams :: "string option"
  startSupportChat :: "string + nat"
  sendOTPEmail :: "string option"
  encryptData :: "regdata \<Rightarrow> string option"
  decryptData :: "string \<Rightarrow> regdata option"
  generateOTP :: string
  getOTPExpiry :: int
  generateToken :: string
  sanitizeInput :: "string \<Rightarrow> string"
  normalizePhoneNumber :: "string \<Rightarrow> string"
  isValidRegistrationData :: "regdata \<Rightarrow> string option"
  isValidLoginData :: "string \<Rightarrow> string \<Rightarrow> string option"
  existingUser :: "string \<Rightarrow> bool option"
  handleApiError :: "string \<Rightarrow> string"
  processMessage :: "string \<Rightarrow> session \<Rightarrow> string \<times> parameters"
  downloadMedia :: "string option"
  uploadImage :: "string + string"
  extractPrescriptionFromBuffer :: "string option"
  savePrescription :: "string \<Rightarrow> string + string"

text \<open>
  Modelled from the spec: the outbound-delivery collaborator
  \<^verbatim>\<open>sendWhatsAppMessage\<close> (config/whatsapp.js is not among the sources) is
  \<^verbatim>\<open>send(identity, text) -> ok|Failed\<close>, whose failures are logged and not
  retried: a send is recorded as an effect and never interrupts the handler. The texts
  are abbreviated to one tag per message template.
\<close>

datatype msg =
    MsgRateLimited
  | MsgIdleLogout
  | MsgLoggedOut
  | MsgRegistrationInvalid string
  | MsgEmailAlreadyRegistered
  | MsgOtpSent string
  | MsgOtpEmailFailed
  | MsgRegistrationPrompt
  | MsgAlreadyRegistered
  | MsgLoginInvalid string
  | MsgLoginSuccess
  | MsgLoginFailed string
  | MsgLoginPrompt
  | MsgAlreadyLoggedIn
  | MsgSupportConnected string
  | MsgSupportUnavailable
  | MsgNoActiveRegistration
  | MsgOtpResent string
  | MsgResendEmailFailed
  | MsgResendError
  | MsgInvalidOtpFormat
  | MsgRegistrationSessionExpired
  | MsgInvalidOtp
  | MsgOtpAlreadyUsed
  | MsgOtpExpired
  | MsgRegistrationSuccess string
  | MsgRegistrationFailed string
  | MsgErrorVerifyingOtp
  | MsgPrescriptionReceived
  | MsgUnsupportedFileType
  | MsgMediaProblem
  | MsgReceivedAndAttached string
  | MsgUploadedNotAttached string string
  | MsgPrescriptionAttached string
  | MsgCouldNotAttach string string
  | MsgNoPrescriptionPending
  | MsgEnterOtp
  | MsgGreetingNew
  | MsgWelcomeBack
  | MsgHelp
  | MsgAuthRequired
  | MsgFallback
  | MsgSomethingWentWrong

text \<open>
  Where lines 1206 to 1332 send a message, one constructor per branch that returns from
  \<^verbatim>\<open>handleCustomerMessage\<close>, and \<open>ProcessWithNLP\<close> when every gate
  lets the message through to intent classification. A page target is used only when
  truthy (\<^verbatim>\<open>if (targetPage)\<close>), so page 0 is no target.
\<close>

datatype route =
    SupportChatClose
  | SupportChatForward
  | QuickAttach string
  | QuickAttachNothingPending string
  | ProductPage int
  | DoctorPage int
  | OtpVerification string
  | OtpResend
  | OtpPrompt
  | ProcessWithNLP

text \<open>
  The \<^verbatim>\<open>switch (intent)\<close> of lines 1336 to 1451 with
  \<^verbatim>\<open>isLoggedIn = isAuthenticatedSession(session)\<close>: the handler an intent
  is given to, or the authentication-required reply.
\<close>

datatype target =
    HandleGreeting | HandleRegistration | HandleLogin | HandleLogout
  | HandleProductSearch | HandleAddToCart | HandlePlaceOrder | HandleTrackOrder
  | HandleDoctorSearch | HandleBookAppointment | HandlePayment | HandleHelp
  | HandleSupportRequest | HandleDiagnosticTestSearch | HandleHealthcareProductBrowse
  | SendAuthRequiredMessage | FallbackResponse

text \<open>
  What a handler does to the outside, in program order. \<open>Uncaught\<close> ends the list
  when the handler is left by an exception that only its caller catches. \<open>Routed\<close>
  and \<open>Called\<close> stand for a branch of the dispatcher and for a handler whose body
  works with services that are not among the sources (support chat, catalogue, orders,
  payment): what the event does from there on is outside this model.
\<close>

datatype effect =
    Send msg
  | SessionSave
  | OtpSave nat bool
  | OtpCreate string string
  | OtpUpdateUsed string
  | CallRegisterUser regdata
  | CallLoginUser string
  | CallNotifySupportTeams
  | CallStartSupportChat string
  | CallSendOTPEmail string string
  | CallSavePrescription string
  | Routed route
  | Called target
  | Uncaught

definition saveSession :: "string \<Rightarrow> session \<Rightarrow> world \<Rightarrow> world" where
  "saveSession phoneNumber s w = w\<lparr>sessions := (sessions w)(phoneNumber \<mapsto> s)\<rparr>"

section \<open>The authentication gate\<close>

text \<open>
  \<^verbatim>\<open>isAuthenticatedSession(session)\<close>. The argument is \<open>None\<close> for
  \<^verbatim>\<open>null\<close> or \<^verbatim>\<open>undefined\<close>; a session whose
  \<^verbatim>\<open>data\<close> is missing has \<open>data = None\<close>. No branch of the body can
  throw on these inputs, so the \<^verbatim>\<open>catch\<close> that returns
  \<^verbatim>\<open>false\<close> adds no case.
\<close>

definition isAuthenticatedSession :: "session option \<Rightarrow> bool" where
  "isAuthenticatedSession sess =
     (case sess of
        None \<Rightarrow> False
      | Some s \<Rightarrow>
          if state s = LOGGED_IN then True
          else (case data s of
                  None \<Rightarrow> False
                | Some d \<Rightarrow> if truthyNum (userId d) then True else False))"

section \<open>The start of an inbound event: session lookup and idle timeout\<close>

text \<open>
  Lines 1176 to 1204 of \<^verbatim>\<open>handleCustomerMessage\<close>. The timeout is
  \<^verbatim>\<open>parseInt(process.env.SESSION_IDLE_TIMEOUT_MINUTES || '10', 10) * 60 * 1000\<close>,
  and the session is expired when
  \<^verbatim>\<open>Date.now() - tokenLastUsed.getTime() > idleMs\<close>. \<open>tokenLastUsed\<close>
  holds the time that \<^verbatim>\<open>new Date(tokenLastUsedStr).getTime()\<close> reads back
  from the ISO string the handlers store. The result says whether the event ends here
  (\<open>True\<close>: the session was logged out).
\<close>

definition idleMs :: "env \<Rightarrow> jsnumber" where
  "idleMs e =
     (let v = (case SESSION_IDLE_TIMEOUT_MINUTES e of
                 None \<Rightarrow> ''10''
               | Some s \<Rightarrow> if s = [] then ''10'' else s)
      in timesConst (timesConst (parseInt v) 60) 1000)"

definition idleExpired :: "env \<Rightarrow> session_data \<Rightarrow> bool" where
  "idleExpired e d =
     (case tokenLastUsed d of
        None \<Rightarrow> False
      | Some t \<Rightarrow> exceeds (roundInt (now e - t)) (idleMs e))"

definition sessionIdleHandling ::
  "env \<Rightarrow> string \<Rightarrow> session \<Rightarrow> world \<Rightarrow> (session \<times> world \<times> effect list) \<times> bool" where
  "sessionIdleHandling e phoneNumber s w =
     (if state s = LOGGED_IN then
        (let d = (case data s of None \<Rightarrow> emptyData | Some d0 \<Rightarrow> d0) in
         if idleExpired e d then
           (let s1 = s\<lparr>state := NEW, data := Some emptyData\<rparr>
            in ((s1, saveSession phoneNumber s1 w, [SessionSave, Send MsgIdleLogout]), True))
         else
           (let d1 = (if \<not> truthyStr (token d) then d\<lparr>token := Some (generateToken e)\<rparr> else d);
                s1 = s\<lparr>data := Some (d1\<lparr>tokenLastUsed := Some (now e)\<rparr>)\<rparr>
            in ((s1, saveSession phoneNumber s1 w, [SessionSave]), False)))
      else ((s, w, []), False))"

text \<open>
  Lines 1146 to 1204: the rate limit, the session found or created with state
  \<^verbatim>\<open>NEW\<close> and empty data, the activity stamp, then the idle handling.
  \<open>None\<close> as the session of the result means that the event was answered and ends.
\<close>

definition beginEvent :: "env \<Rightarrow> string \<Rightarrow> world \<Rightarrow> session option \<times> world \<times> effect list" where
  "beginEvent e phoneNumber w =
     (if \<not> rateLimitAllowed e then (None, w, [Send MsgRateLimited])
      else
        let s0 = (case sessions w phoneNumber of
                    None \<Rightarrow> \<lparr>state = NEW, data = Some emptyData, lastActivity = now e,
                              supportTeamId = None\<rparr>
                  | Some s \<Rightarrow> s);
            s1 = s0\<lparr>lastActivity := now e\<rparr>;
            w1 = saveSession phoneNumber s1 w
        in case sessionIdleHandling e phoneNumber s1 w1 of
             ((s2, w2, effs), stop) \<Rightarrow>
               (if stop then None else Some s2, w2, SessionSave # effs))"

section \<open>The gates of the dispatcher\<close>

text \<open>
  The regular expressions of lines 1211, 1230, 1308 and 1309, each on the text it is
  applied to. \<^verbatim>\<open>/^(?:rx|attach|link)\s+#?(\d+)/i\<close> has no end anchor: it
  yields the digits that follow the command word, white space and an optional
  \<^verbatim>\<open>#\<close>.
\<close>

definition closeChatMatch :: "string \<Rightarrow> bool" where
  "closeChatMatch messageText =
     (toLowerCase (trim messageText) \<in> set [''close'', ''exit'', ''end chat'', ''stop support''])"

definition afterCommandWord :: "string \<Rightarrow> string option" where
  "afterCommandWord s =
     (if toLowerCase (take 2 s) = ''rx'' then Some (drop 2 s)
      else if toLowerCase (take 6 s) = ''attach'' then Some (drop 6 s)
      else if toLowerCase (take 4 s) = ''link'' then Some (drop 4 s)
      else None)"

definition attachMatch :: "string \<Rightarrow> string option" where
  "attachMatch messageText =
     (case afterCommandWord (trim messageText) of
        None \<Rightarrow> None
      | Some r \<Rightarrow>
          if r = [] \<or> \<not> isWhiteSpace (hd r) then None
          else
            let r1 = dropWhile isWhiteSpace r;
                r2 = (if r1 \<noteq> [] \<and> hd r1 = CHR ''#'' then tl r1 else r1);
                ds = takeWhile isDigit r2
            in if ds = [] then None else Some ds)"

definition otpMatch :: "string \<Rightarrow> string option" where
  "otpMatch messageText =
     (let t = trim messageText
      in if length t = 4 \<and> list_all isDigit t then Some t else None)"

definition resendMatch :: "string \<Rightarrow> bool" where
  "resendMatch messageText =
     (trim (toLowerCase messageText) \<in> set [''resend'', ''retry'', ''send again''])"

definition pageTarget :: "pagination option \<Rightarrow> string \<Rightarrow> int option" where
  "pageTarget cursor messageText =
     (case cursor of
        None \<Rightarrow> None
      | Some c \<Rightarrow>
          (case parseNavigationCommand (Some messageText) (currentPage c) (totalPages c) of
             None \<Rightarrow> None
           | Some p \<Rightarrow> if p = 0 then None else Some p))"

definition otpGate :: "session \<Rightarrow> string \<Rightarrow> route option" where
  "otpGate s messageText =
     (let waiting = (case data s of None \<Rightarrow> False
                     | Some d \<Rightarrow> truthyBool (waitingForOTPVerification d))
      in if state s = REGISTERING \<or> waiting then
           (case otpMatch messageText of
              Some c \<Rightarrow> Some (OtpVerification c)
            | None \<Rightarrow>
                if resendMatch messageText then Some OtpResend
                else if state s = REGISTERING \<and> waiting then Some OtpPrompt
                else None)
         else None)"

definition attachGate :: "session \<Rightarrow> string \<Rightarrow> route option" where
  "attachGate s messageText =
     (case attachMatch messageText of
        None \<Rightarrow> None
      | Some orderId \<Rightarrow>
          if (case data s of None \<Rightarrow> False | Some d \<Rightarrow> truthyStr (pendingPrescriptionUrl d))
          then Some (QuickAttach orderId)
          else Some (QuickAttachNothingPending orderId))"

definition productPageGate :: "session \<Rightarrow> string \<Rightarrow> route option" where
  "productPageGate s messageText =
     (case data s of
        None \<Rightarrow> None
      | Some d \<Rightarrow> map_option ProductPage (pageTarget (productPagination d) messageText))"

definition doctorPageGate :: "session \<Rightarrow> string \<Rightarrow> route option" where
  "doctorPageGate s messageText =
     (case data s of
        None \<Rightarrow> None
      | Some d \<Rightarrow> map_option DoctorPage (pageTarget (doctorPagination d) messageText))"

definition supportChatGate :: "session \<Rightarrow> string \<Rightarrow> route option" where
  "supportChatGate s messageText =
     (if state s = SUPPORT_CHAT
      then (if closeChatMatch messageText then Some SupportChatClose
            else Some SupportChatForward)
      else None)"

text \<open>The first gate that takes the message, tried in the order given.\<close>

fun firstGate :: "(session \<Rightarrow> string \<Rightarrow> route option) list \<Rightarrow> session \<Rightarrow> string \<Rightarrow> route" where
  "firstGate [] s messageText = ProcessWithNLP"
| "firstGate (g # gs) s messageText =
     (case g s messageText of Some r \<Rightarrow> r | None \<Rightarrow> firstGate gs s messageText)"

text \<open>The order of \<^verbatim>\<open>handleCustomerMessage\<close>, lines 1206 to 1332.\<close>

definition routeMessage :: "session \<Rightarrow> string \<Rightarrow> route" where
  "routeMessage s messageText =
     firstGate [supportChatGate, attachGate, productPageGate, doctorPageGate, otpGate]
       s messageText"

text \<open>
  The priority order as the specification gives it: support chat, pending one-time
  code, quick attach, pagination cursor, intent classification.
\<close>

definition routeMessage_spec :: "session \<Rightarrow> string \<Rightarrow> route" where
  "routeMessage_spec s messageText =
     firstGate [supportChatGate, otpGate, attachGate, productPageGate, doctorPageGate]
       s messageText"

definition authenticatedOnly :: "bool \<Rightarrow> target \<Rightarrow> target" where
  "authenticatedOnly isLoggedIn h = (if \<not> isLoggedIn then SendAuthRequiredMessage else h)"

definition intentSwitch :: "session \<Rightarrow> string \<Rightarrow> target" where
  "intentSwitch s intent =
     (let isLoggedIn = isAuthenticatedSession (Some s) in
      if intent = ''greeting'' then HandleGreeting
      else if intent = ''register'' then HandleRegistration
      else if intent = ''login'' then HandleLogin
      else if intent = ''logout'' then HandleLogout
      else if intent = ''search_products'' then authenticatedOnly isLoggedIn HandleProductSearch
      else if intent = ''add_to_cart'' then authenticatedOnly isLoggedIn HandleAddToCart
      else if intent = ''place_order'' then authenticatedOnly isLoggedIn HandlePlaceOrder
      else if intent = ''track_order'' then authenticatedOnly isLoggedIn HandleTrackOrder
      else if intent = ''search_doctors'' then authenticatedOnly isLoggedIn HandleDoctorSearch
      else if intent = ''book_appointment'' then authenticatedOnly isLoggedIn HandleBookAppointment
      else if intent = ''payment'' then authenticatedOnly isLoggedIn HandlePayment
      else if intent = ''help'' then HandleHelp
      else if intent = ''support'' then HandleSupportRequest
      else if intent = ''diagnostic_tests''
        then authenticatedOnly isLoggedIn HandleDiagnosticTestSearch
      else if intent = ''healthcare_products''
        then authenticatedOnly isLoggedIn HandleHealthcareProductBrowse
      else FallbackResponse)"

section \<open>The handlers\<close>

definition dataOrEmpty :: "session \<Rightarrow> session_data" where
  "dataOrEmpty s = (case data s of None \<Rightarrow> emptyData | Some d \<Rightarrow> d)"

definition strOf :: "string option \<Rightarrow> string" where
  "strOf v = (case v of None \<Rightarrow> [] | Some s \<Rightarrow> s)"

text \<open>\<^verbatim>\<open>result.token || generateToken()\<close>\<close>

definition tokenOr :: "env \<Rightarrow> string option \<Rightarrow> string" where
  "tokenOr e tok = (if truthyStr tok then strOf tok else generateToken e)"

subsection \<open>Logout, login, support request, incoming media\<close>

definition handleLogout :: "env \<Rightarrow> string \<Rightarrow> session \<Rightarrow> world \<Rightarrow> world \<times> effect list" where
  "handleLogout e phoneNumber session w =
     (let s1 = session\<lparr>state := NEW, data := Some emptyData\<rparr>
      in (saveSession phoneNumber s1 w, [SessionSave, Send MsgLoggedOut]))"

definition handleLogin ::
  "env \<Rightarrow> string \<Rightarrow> session \<Rightarrow> parameters \<Rightarrow> world \<Rightarrow> world \<times> effect list" where
  "handleLogin e phoneNumber session params w =
     (if state session = NEW \<or> state session = LOGGING_IN then
        let s1 = session\<lparr>state := LOGGING_IN\<rparr>;
            w1 = saveSession phoneNumber s1 w
        in if truthyStr (p_email params) \<and> truthyStr (p_password params) then
             let cemail = toLowerCase (sanitizeInput e (strOf (p_email params)));
                 cpassword = sanitizeInput e (strOf (p_password params))
             in case isValidLoginData e cemail cpassword of
                  Some err \<Rightarrow> (w1, [SessionSave, Send (MsgLoginInvalid err)])
                | None \<Rightarrow>
                    (case loginUser e cemail cpassword of
                       Inl err \<Rightarrow>
                         (w1, [SessionSave, CallLoginUser cemail,
                               Send (MsgLoginFailed (handleApiError e err))])
                     | Inr result \<Rightarrow>
                         let s2 = s1\<lparr>state := LOGGED_IN,
                                      data := Some ((dataOrEmpty s1)
                                        \<lparr>userId := res_userId result,
                                         token := Some (tokenOr e (res_token result)),
                                         tokenLastUsed := Some (now e)\<rparr>)\<rparr>
                         in (saveSession phoneNumber s2 w1,
                             [SessionSave, CallLoginUser cemail, SessionSave,
                              Send MsgLoginSuccess]))
           else (w1, [SessionSave, Send MsgLoginPrompt])
      else (w, [Send MsgAlreadyLoggedIn]))"

text \<open>
  Modelled from the spec: \<^verbatim>\<open>startSupportChat\<close> (services/support.js is not
  among the sources). The specification's transition
  \<^verbatim>\<open>LOGGED_IN, support intent -> SUPPORT_CHAT\<close> is what a successful call
  commits to the stored session; a call that throws commits nothing.
\<close>

definition supportChatStarted :: "string \<Rightarrow> nat \<Rightarrow> world \<Rightarrow> world" where
  "supportChatStarted phoneNumber teamId w =
     (case sessions w phoneNumber of
        None \<Rightarrow> w
      | Some s \<Rightarrow> saveSession phoneNumber (s\<lparr>state := SUPPORT_CHAT, supportTeamId := Some teamId\<rparr>) w)"

definition handleSupportRequest ::
  "env \<Rightarrow> string \<Rightarrow> session \<Rightarrow> parameters \<Rightarrow> world \<Rightarrow> world \<times> effect list" where
  "handleSupportRequest e phoneNumber session params w =
     (let supportRole = (if truthyStr (p_supportType params) then strOf (p_supportType params)
                         else ''general'')
      in case startSupportChat e of
           Inr teamId \<Rightarrow>
             (supportChatStarted phoneNumber teamId w,
              [CallStartSupportChat supportRole, Send (MsgSupportConnected supportRole)])
         | Inl err \<Rightarrow>
             let s1 = session\<lparr>state := LOGGED_IN, supportTeamId := None\<rparr>
             in (saveSession phoneNumber s1 w,
                 [CallStartSupportChat supportRole, SessionSave, Send MsgSupportUnavailable]))"

text \<open>
  Lines 538 to 551 of the \<^verbatim>\<open>/webhook\<close> route: an uploaded file whose
  caption names no order is kept in the session as a pending attachment. The session is
  the stored one, or a new one with state \<^verbatim>\<open>NEW\<close> and empty data.
\<close>

definition webhookMediaPending ::
  "env \<Rightarrow> string \<Rightarrow> string \<Rightarrow> string option \<Rightarrow> world \<Rightarrow> world \<times> effect list" where
  "webhookMediaPending e phoneNumber url extractedText w =
     (let session = (case sessions w phoneNumber of
                       None \<Rightarrow> \<lparr>state = NEW, data = Some emptyData, lastActivity = now e,
                                 supportTeamId = None\<rparr>
                     | Some s \<Rightarrow> s);
          d1 = (dataOrEmpty session)\<lparr>pendingPrescriptionUrl := Some url\<rparr>;
          d2 = (if truthyStr extractedText
                then d1\<lparr>pendingPrescriptionExtractedText := extractedText\<rparr> else d1)
      in (saveSession phoneNumber (session\<lparr>data := Some d2\<rparr>) w,
          [SessionSave, Send MsgPrescriptionReceived]))"

text \<open>
  The order number of a caption, \<^verbatim>\<open>/(?:rx|order|prescription)\s*#?(\d+)/i\<close>:
  the expression has no anchor, so it is tried at every position from the left, and the
  first position where it matches gives the digits.
\<close>

definition afterOrderWord :: "string \<Rightarrow> string option" where
  "afterOrderWord s =
     (if toLowerCase (take 2 s) = ''rx'' then Some (drop 2 s)
      else if toLowerCase (take 5 s) = ''order'' then Some (drop 5 s)
      else if toLowerCase (take 12 s) = ''prescription'' then Some (drop 12 s)
      else None)"

definition orderIdAt :: "string \<Rightarrow> string option" where
  "orderIdAt s =
     (case afterOrderWord s of
        None \<Rightarrow> None
      | Some r \<Rightarrow>
          let r1 = dropWhile isWhiteSpace r;
              r2 = (if r1 \<noteq> [] \<and> hd r1 = CHR ''#'' then tl r1 else r1);
              ds = takeWhile isDigit r2
          in if ds = [] then None else Some ds)"

fun captionOrderId :: "string \<Rightarrow> string option" where
  "captionOrderId [] = None"
| "captionOrderId (c # cs) =
     (case orderIdAt (c # cs) of Some ds \<Rightarrow> Some ds | None \<Rightarrow> captionOrderId cs)"

text \<open>
  An image or document message of the \<^verbatim>\<open>/webhook\<close> route: the declared
  type and the caption of an image; the declared type, the caption of the document and
  the caption of the message for a document. \<open>None\<close> is a field that is absent.
\<close>

datatype media_message =
    ImageMessage "string option" "string option"
  | DocumentMessage "string option" "string option" "string option"

definition orDefault :: "string option \<Rightarrow> string \<Rightarrow> string" where
  "orDefault v d = (if truthyStr v then strOf v else d)"

definition allowedTypes :: "string list" where
  "allowedTypes =
     [''image/jpeg'', ''image/png'', ''image/webp'', ''image/gif'', ''application/pdf'']"

text \<open>
  Lines 472 to 557, the branch of the \<^verbatim>\<open>/webhook\<close> route for an image or
  a document. The session is read only where the file is kept as pending: the branch has
  no rate limit, no activity stamp and no idle handling.
\<close>

definition webhookMedia :: "env \<Rightarrow> string \<Rightarrow> media_message \<Rightarrow> world \<Rightarrow> world \<times> effect list" where
  "webhookMedia e phoneNumber message w =
     (let mimeType = (case message of
                        ImageMessage mt c \<Rightarrow> orDefault mt ''image/jpeg''
                      | DocumentMessage mt c1 c2 \<Rightarrow> orDefault mt ''application/pdf'');
          caption = (case message of
                       ImageMessage mt c \<Rightarrow> orDefault c []
                     | DocumentMessage mt c1 c2 \<Rightarrow> orDefault c1 (orDefault c2 []))
      in if mimeType \<notin> set allowedTypes then (w, [Send MsgUnsupportedFileType])
         else
           (case downloadMedia e of
              Some err \<Rightarrow> (w, [Send MsgMediaProblem])
            | None \<Rightarrow>
                (case uploadImage e of
                   Inl err \<Rightarrow> (w, [Send MsgMediaProblem])
                 | Inr url \<Rightarrow>
                     (case captionOrderId caption of
                        Some orderId \<Rightarrow>
                          (case savePrescription e orderId of
                             Inr status \<Rightarrow>
                               (w, [CallSavePrescription orderId,
                                    Send (MsgReceivedAndAttached orderId)])
                           | Inl err \<Rightarrow>
                               (w, [CallSavePrescription orderId,
                                    Send (MsgUploadedNotAttached orderId err)]))
                      | None \<Rightarrow>
                          webhookMediaPending e phoneNumber url
                            (extractPrescriptionFromBuffer e) w))))"

subsection \<open>Issuing a one-time code: registration and resend\<close>

text \<open>
  The encrypted snapshot stored with a new code:
  \<^verbatim>\<open>meta: encryptedRegistration ? { registrationData: encryptedRegistration } : null\<close>,
  where a failing \<^verbatim>\<open>encryptData\<close> leaves \<^verbatim>\<open>null\<close>.
\<close>

definition snapshotMeta :: "env \<Rightarrow> regdata \<Rightarrow> string option" where
  "snapshotMeta e rd =
     (case encryptData e rd of None \<Rightarrow> None | Some c \<Rightarrow> if c = [] then None else Some c)"

definition newOtpRecord :: "env \<Rightarrow> regdata \<Rightarrow> otp_record" where
  "newOtpRecord e rd =
     \<lparr> otp_email = rd_email rd, otp_code = generateOTP e, otp_purpose = ''registration'',
       otp_isUsed = False, otp_usedAt = None, otp_expiresAt = getOTPExpiry e,
       otp_meta = snapshotMeta e rd \<rparr>"

text \<open>
  \<^verbatim>\<open>handleRegistration\<close>. Writing
  \<^verbatim>\<open>session.data.registrationData\<close> when \<^verbatim>\<open>data\<close> is null
  throws outside every \<^verbatim>\<open>try\<close> of the handler (\<open>Uncaught\<close>). The
  \<^verbatim>\<open>catch\<close> of lines 1697 to 1704 is entered only when the store or a
  module load fails, which the model does not have. No earlier code of the same address
  is touched: the handler only calls \<^verbatim>\<open>OTP.create\<close>.
\<close>

definition handleRegistration ::
  "env \<Rightarrow> string \<Rightarrow> session \<Rightarrow> parameters \<Rightarrow> world \<Rightarrow> world \<times> effect list" where
  "handleRegistration e phoneNumber session params w =
     (if state session = NEW \<or> state session = REGISTERING then
        (if truthyStr (p_name params) \<and> truthyStr (p_email params)
            \<and> truthyStr (p_password params) then
           let userData = \<lparr> rd_name = sanitizeInput e (strOf (p_name params)),
                             rd_email = toLowerCase (sanitizeInput e (strOf (p_email params))),
                             rd_password = sanitizeInput e (strOf (p_password params)),
                             rd_phoneNumber = normalizePhoneNumber e phoneNumber \<rparr>
           in case isValidRegistrationData e userData of
                Some err \<Rightarrow> (w, [Send (MsgRegistrationInvalid err)])
              | None \<Rightarrow>
                  if existingUser e (rd_email userData) = Some True
                  then (w, [Send MsgEmailAlreadyRegistered])
                  else
                    (case data session of
                       None \<Rightarrow> (w, [Uncaught])
                     | Some d \<Rightarrow>
                         let d1 = d\<lparr>registrationData := Some userData, userId := None,
                                     token := None\<rparr>;
                             s1 = session\<lparr>state := REGISTERING, data := Some d1\<rparr>;
                             w1 = saveSession phoneNumber s1 w;
                             w2 = w1\<lparr>otps := otps w1 @ [newOtpRecord e userData]\<rparr>;
                             emailSent = (sendOTPEmail e = None);
                             attempts = (case registrationAttempts d1 of None \<Rightarrow> 0 | Some n \<Rightarrow> n);
                             d2 = d1\<lparr>waitingForOTPVerification := Some True,
                                      registrationAttempts := Some (attempts + 1),
                                      emailSendFailed := Some (\<not> emailSent)\<rparr>
                         in (saveSession phoneNumber (s1\<lparr>data := Some d2\<rparr>) w2,
                             [SessionSave, OtpCreate (rd_email userData) (generateOTP e),
                              CallSendOTPEmail (rd_email userData) (generateOTP e),
                              Send (if emailSent then MsgOtpSent (rd_email userData)
                                    else MsgOtpEmailFailed),
                              SessionSave]))
         else (w, [Send MsgRegistrationPrompt]))
      else (w, [Send MsgAlreadyRegistered]))"

text \<open>
  \<^verbatim>\<open>(freshSession && freshSession.data && freshSession.data.registrationData)
  || (session.data && session.data.registrationData)\<close>, and the test
  \<^verbatim>\<open>!registrationData || !registrationData.email\<close>.
\<close>

definition sessionRegistrationData :: "session option \<Rightarrow> session \<Rightarrow> regdata option" where
  "sessionRegistrationData freshSession session =
     (case (case freshSession of
              None \<Rightarrow> None
            | Some fs \<Rightarrow> (case data fs of None \<Rightarrow> None | Some d \<Rightarrow> registrationData d)) of
        Some rd \<Rightarrow> Some rd
      | None \<Rightarrow> (case data session of None \<Rightarrow> None | Some d \<Rightarrow> registrationData d))"

definition missingRegistration :: "regdata option \<Rightarrow> bool" where
  "missingRegistration r = (case r of None \<Rightarrow> True | Some rd \<Rightarrow> rd_email rd = [])"

text \<open>
  The branch both one-time-code handlers take when no registration payload is left: the
  reply, then the flags of the stored session are cleared. Writing a field of a
  \<^verbatim>\<open>data\<close> that is null throws, which the handler's outer
  \<^verbatim>\<open>catch\<close> answers with its own message.
\<close>

definition registrationLost ::
  "string \<Rightarrow> session option \<Rightarrow> msg \<Rightarrow> msg \<Rightarrow> world \<Rightarrow> world \<times> effect list" where
  "registrationLost phoneNumber freshSession reply caught w =
     (case freshSession of
        None \<Rightarrow> (w, [Send reply])
      | Some fs \<Rightarrow>
          (case data fs of
             None \<Rightarrow> (w, [Send reply, Send caught])
           | Some d \<Rightarrow>
               (saveSession phoneNumber
                  (fs\<lparr>data := Some (d\<lparr>waitingForOTPVerification := Some False,
                                        registrationData := None\<rparr>)\<rparr>) w,
                [Send reply, SessionSave])))"

text \<open>
  \<^verbatim>\<open>OTP.update({ isUsed: true }, { where: { email, purpose: 'registration',
  isUsed: false } })\<close>
\<close>

definition markOldOtpsUsed :: "string \<Rightarrow> otp_record list \<Rightarrow> otp_record list" where
  "markOldOtpsUsed email rows =
     map (\<lambda>r. if otp_email r = email \<and> otp_purpose r = ''registration'' \<and> \<not> otp_isUsed r
               then r\<lparr>otp_isUsed := True\<rparr> else r) rows"

text \<open>
  \<^verbatim>\<open>handleResendOTP\<close>. A write to a null \<^verbatim>\<open>data\<close> inside the
  inner \<^verbatim>\<open>try\<close> is caught as if the mail had failed, and the same write in
  that \<^verbatim>\<open>catch\<close> then reaches the outer one.
\<close>

definition handleResendOTP :: "env \<Rightarrow> string \<Rightarrow> session \<Rightarrow> world \<Rightarrow> world \<times> effect list" where
  "handleResendOTP e phoneNumber session w =
     (let freshSession = sessions w phoneNumber;
          registrationData = sessionRegistrationData freshSession session
      in case registrationData of
           None \<Rightarrow> registrationLost phoneNumber freshSession MsgNoActiveRegistration MsgResendError w
         | Some rd \<Rightarrow>
             if rd_email rd = []
             then registrationLost phoneNumber freshSession MsgNoActiveRegistration MsgResendError w
             else
               let s = (case freshSession of None \<Rightarrow> session | Some fs \<Rightarrow> fs);
                   w1 = w\<lparr>otps := markOldOtpsUsed (rd_email rd) (otps w) @ [newOtpRecord e rd]\<rparr>;
                   effs = [OtpUpdateUsed (rd_email rd), OtpCreate (rd_email rd) (generateOTP e),
                           CallSendOTPEmail (rd_email rd) (generateOTP e)]
               in case sendOTPEmail e of
                    None \<Rightarrow>
                      (case data s of
                         None \<Rightarrow>
                           (w1, effs @ [Send (MsgOtpResent (rd_email rd)),
                                        Send MsgResendEmailFailed, Send MsgResendError])
                       | Some d \<Rightarrow>
                           (saveSession phoneNumber
                              (s\<lparr>data := Some (d\<lparr>waitingForOTPVerification := Some True,
                                                   registrationAttempts := Some 0,
                                                   emailSendFailed := Some False\<rparr>)\<rparr>) w1,
                            effs @ [Send (MsgOtpResent (rd_email rd)), SessionSave]))
                  | Some err \<Rightarrow>
                      (case data s of
                         None \<Rightarrow> (w1, effs @ [Send MsgResendEmailFailed, Send MsgResendError])
                       | Some d \<Rightarrow>
                           (saveSession phoneNumber
                              (s\<lparr>data := Some (d\<lparr>waitingForOTPVerification := Some True,
                                                   emailSendFailed := Some True\<rparr>)\<rparr>) w1,
                            effs @ [Send MsgResendEmailFailed, SessionSave])))"

subsection \<open>Verifying a one-time code\<close>

text \<open>
  \<^verbatim>\<open>OTP.findOne({ where, order: [['createdAt', 'DESC']] })\<close>: the position
  of the newest row that satisfies the condition.
\<close>

definition findLatest :: "(otp_record \<Rightarrow> bool) \<Rightarrow> otp_record list \<Rightarrow> nat option" where
  "findLatest P rows =
     (case filter (\<lambda>i. P (rows ! i)) (rev [0..<length rows]) of
        [] \<Rightarrow> None
      | i # _ \<Rightarrow> Some i)"

definition byCode :: "string \<Rightarrow> otp_record \<Rightarrow> bool" where
  "byCode otp r = (otp_code r = otp \<and> otp_purpose r = ''registration'')"

definition byEmailAndCode :: "string \<Rightarrow> string \<Rightarrow> otp_record \<Rightarrow> bool" where
  "byEmailAndCode email otp r =
     (otp_email r = email \<and> otp_code r = otp \<and> otp_purpose r = ''registration'')"

text \<open>
  Lines 2398 to 2416: the payload read back from the snapshot of the row found by code.
  A snapshot that does not decrypt, or decrypts to a payload without email, recovers
  nothing.
\<close>

definition recoverRegistrationData :: "env \<Rightarrow> string \<Rightarrow> otp_record \<Rightarrow> regdata option" where
  "recoverRegistrationData e phoneNumber r =
     (case otp_meta r of
        None \<Rightarrow> None
      | Some c \<Rightarrow>
          if c = [] then None
          else (case decryptData e c of
                  None \<Rightarrow> None
                | Some decrypted \<Rightarrow>
                    if rd_email decrypted = [] then None
                    else Some \<lparr> rd_name = rd_name decrypted, rd_email = rd_email decrypted,
                                 rd_password = rd_password decrypted,
                                 rd_phoneNumber =
                                   (if rd_phoneNumber decrypted \<noteq> [] then rd_phoneNumber decrypted
                                    else normalizePhoneNumber e phoneNumber) \<rparr>))"

text \<open>
  Lines 2381 to 2416: the payload the verification works with, from the session or,
  when the session has none, from the snapshot.
\<close>

definition resolveRegistrationData ::
  "env \<Rightarrow> string \<Rightarrow> session \<Rightarrow> string \<Rightarrow> world \<Rightarrow> regdata option" where
  "resolveRegistrationData e phoneNumber session otp w =
     (let registrationData = sessionRegistrationData (sessions w phoneNumber) session
      in if missingRegistration registrationData then
           (case findLatest (byCode otp) (otps w) of
              None \<Rightarrow> registrationData
            | Some i \<Rightarrow>
                (case recoverRegistrationData e phoneNumber (otps w ! i) of
                   None \<Rightarrow> registrationData
                 | Some rd \<Rightarrow> Some rd))
         else registrationData)"

text \<open>
  Lines 2433 to 2447: the row the supplied code is checked against, the one found by
  code if it belongs to the payload's email, else the newest row of that email and code.
\<close>

definition resolveOtpRecord :: "string \<Rightarrow> string \<Rightarrow> otp_record list \<Rightarrow> nat option" where
  "resolveOtpRecord email otp rows =
     (case findLatest (byCode otp) rows of
        None \<Rightarrow> findLatest (byEmailAndCode email otp) rows
      | Some i \<Rightarrow>
          if otp_email (rows ! i) = email then Some i
          else findLatest (byEmailAndCode email otp) rows)"

text \<open>
  The \<^verbatim>\<open>catch\<close> of lines 2499 to 2512, entered with the effects so far:
  the reply, the row written back unused, then the session flag.
\<close>

definition registrationFailed ::
  "env \<Rightarrow> string \<Rightarrow> nat \<Rightarrow> string \<Rightarrow> session \<Rightarrow> effect list \<Rightarrow> world \<Rightarrow> world \<times> effect list" where
  "registrationFailed e phoneNumber i err s sofar w =
     (let r = otps w ! i;
          w1 = w\<lparr>otps := (otps w)[i := r\<lparr>otp_isUsed := False, otp_usedAt := None\<rparr>]\<rparr>;
          effs = sofar @ [Send (MsgRegistrationFailed (handleApiError e err)), OtpSave i False]
      in case data s of
           None \<Rightarrow> (w1, effs @ [Send MsgErrorVerifyingOtp])
         | Some d \<Rightarrow>
             (saveSession phoneNumber
                (s\<lparr>data := Some (d\<lparr>waitingForOTPVerification := Some True\<rparr>)\<rparr>) w1,
              effs @ [SessionSave]))"

text \<open>
  Lines 2479 to 2488: the session after the user record is created, with
  \<^verbatim>\<open>Object.assign(session.data || {}, { ... })\<close>.
\<close>

definition registeredSession :: "env \<Rightarrow> auth_result \<Rightarrow> session \<Rightarrow> session" where
  "registeredSession e result s =
     s\<lparr>state := LOGGED_IN,
       data := Some ((dataOrEmpty s)
         \<lparr>userId := res_userId result,
          token := Some (tokenOr e (res_token result)),
          tokenLastUsed := Some (now e),
          waitingForOTPVerification := Some False,
          registrationData := None,
          emailSendFailed := Some False\<rparr>)\<rparr>"

text \<open>
  The \<^verbatim>\<open>try\<close> of lines 2475 to 2498, entered once the row at position
  \<open>i\<close> is marked used.
\<close>

definition completeRegistration ::
  "env \<Rightarrow> string \<Rightarrow> nat \<Rightarrow> regdata \<Rightarrow> session \<Rightarrow> world \<Rightarrow> world \<times> effect list" where
  "completeRegistration e phoneNumber i rd s w =
     (case registerUser e rd of
        Inl err \<Rightarrow> registrationFailed e phoneNumber i err s [OtpSave i True, CallRegisterUser rd] w
      | Inr result \<Rightarrow>
          let s1 = registeredSession e result s;
              w1 = saveSession phoneNumber s1 w
          in case notifySupportTeams e of
               Some err \<Rightarrow>
                 registrationFailed e phoneNumber i err s1
                   [OtpSave i True, CallRegisterUser rd, SessionSave, CallNotifySupportTeams] w1
             | None \<Rightarrow>
                 (w1, [OtpSave i True, CallRegisterUser rd, SessionSave, CallNotifySupportTeams,
                       Send (MsgRegistrationSuccess (rd_name rd))]))"

text \<open>
  \<^verbatim>\<open>handleRegistrationOTPVerification\<close>, lines 2369 to 2518: the format
  test, the payload, the row, the tests for a used and for an expired row, the write
  that marks the row used, and then the registration.
\<close>

definition handleRegistrationOTPVerification ::
  "env \<Rightarrow> string \<Rightarrow> session \<Rightarrow> string \<Rightarrow> world \<Rightarrow> world \<times> effect list" where
  "handleRegistrationOTPVerification e phoneNumber session otpCode w =
     (let otp = trim otpCode in
      if \<not> (length otp = 4 \<and> list_all isDigit otp) then (w, [Send MsgInvalidOtpFormat])
      else
        let freshSession = sessions w phoneNumber;
            registrationData = resolveRegistrationData e phoneNumber session otp w
        in case registrationData of
             None \<Rightarrow>
               registrationLost phoneNumber freshSession MsgRegistrationSessionExpired
                 MsgErrorVerifyingOtp w
           | Some rd \<Rightarrow>
               if rd_email rd = [] then
                 registrationLost phoneNumber freshSession MsgRegistrationSessionExpired
                   MsgErrorVerifyingOtp w
               else
                 let s = (case freshSession of None \<Rightarrow> session | Some fs \<Rightarrow> fs)
                 in case resolveOtpRecord (rd_email rd) otp (otps w) of
                      None \<Rightarrow> (w, [Send MsgInvalidOtp])
                    | Some i \<Rightarrow>
                        let otpRecord = otps w ! i in
                        if otp_isUsed otpRecord then (w, [Send MsgOtpAlreadyUsed])
                        else if now e > otp_expiresAt otpRecord then (w, [Send MsgOtpExpired])
                        else
                          completeRegistration e phoneNumber i rd s
                            (w\<lparr>otps := (otps w)[i := otpRecord\<lparr>otp_isUsed := True,
                                                     otp_usedAt := Some (now e)\<rparr>]\<rparr>))"

section \<open>The dispatcher\<close>

text \<open>
  Lines 1229 to 1248: the quick-attach command with a pending file. The file is attached
  and the pending fields are cleared, or the failure is reported and the session kept.
\<close>

definition quickAttach :: "env \<Rightarrow> string \<Rightarrow> session \<Rightarrow> string \<Rightarrow> world \<Rightarrow> world \<times> effect list" where
  "quickAttach e phoneNumber s orderId w =
     (case savePrescription e orderId of
        Inr status \<Rightarrow>
          (saveSession phoneNumber
             (s\<lparr>data := Some ((dataOrEmpty s)\<lparr>pendingPrescriptionUrl := None,
                                                pendingPrescriptionExtractedText := None\<rparr>)\<rparr>) w,
           [CallSavePrescription orderId, SessionSave, Send (MsgPrescriptionAttached orderId)])
      | Inl err \<Rightarrow> (w, [CallSavePrescription orderId, Send (MsgCouldNotAttach orderId err)]))"

text \<open>
  Lines 1327 to 1451: the message is classified and the \<^verbatim>\<open>switch\<close> gives
  it to a handler.
\<close>

definition handleIntent ::
  "env \<Rightarrow> string \<Rightarrow> session \<Rightarrow> string \<Rightarrow> parameters \<Rightarrow> world \<Rightarrow> world \<times> effect list" where
  "handleIntent e phoneNumber s intent params w =
     (case intentSwitch s intent of
        HandleGreeting \<Rightarrow> (w, [Send (if state s = NEW then MsgGreetingNew else MsgWelcomeBack)])
      | HandleRegistration \<Rightarrow> handleRegistration e phoneNumber s params w
      | HandleLogin \<Rightarrow> handleLogin e phoneNumber s params w
      | HandleLogout \<Rightarrow> handleLogout e phoneNumber s w
      | HandleHelp \<Rightarrow> (w, [Send MsgHelp])
      | HandleSupportRequest \<Rightarrow> handleSupportRequest e phoneNumber s params w
      | SendAuthRequiredMessage \<Rightarrow> (w, [Send MsgAuthRequired])
      | FallbackResponse \<Rightarrow> (w, [Send MsgFallback])
      | h \<Rightarrow> (w, [Called h]))"

text \<open>
  The \<^verbatim>\<open>catch\<close> of lines 1453 to 1460: an exception that leaves a handler
  is answered with one message.
\<close>

definition caughtByDispatcher :: "world \<times> effect list \<Rightarrow> world \<times> effect list" where
  "caughtByDispatcher r =
     (if Uncaught \<in> set (snd r) then (fst r, snd r @ [Send MsgSomethingWentWrong]) else r)"

text \<open>
  \<^verbatim>\<open>handleCustomerMessage(phoneNumber, messageText)\<close>: the start of the
  event, the gates in their order, the handler. The handler is given the session the
  event loaded, as it is after the idle handling.
\<close>

definition handleCustomerMessage :: "env \<Rightarrow> string \<Rightarrow> string \<Rightarrow> world \<Rightarrow> world \<times> effect list" where
  "handleCustomerMessage e phoneNumber messageText w =
     (case beginEvent e phoneNumber w of
        (None, w1, effs) \<Rightarrow> (w1, effs)
      | (Some s, w1, effs) \<Rightarrow>
          let r = (case routeMessage s messageText of
                     QuickAttach orderId \<Rightarrow> quickAttach e phoneNumber s orderId w1
                   | QuickAttachNothingPending orderId \<Rightarrow> (w1, [Send MsgNoPrescriptionPending])
                   | OtpVerification c \<Rightarrow>
                       handleRegistrationOTPVerification e phoneNumber s c w1
                   | OtpResend \<Rightarrow> handleResendOTP e phoneNumber s w1
                   | OtpPrompt \<Rightarrow> (w1, [Send MsgEnterOtp])
                   | ProcessWithNLP \<Rightarrow>
                       (case processMessage e messageText s of
                          (intent, params) \<Rightarrow> handleIntent e phoneNumber s intent params w1)
                   | other \<Rightarrow> (w1, [Routed other]))
          in caughtByDispatcher (fst r, effs @ snd r))"

section \<open>Concrete sessions, stores and environments\<close>

text \<open>
  The inputs at which the theorems below are evaluated: a caller with phone number
  \<open>''2348012345678''\<close>, registering as \<open>ada@example.com\<close>.
\<close>

definition adaPhone :: string where
  "adaPhone = ''2348012345678''"

definition adaData :: regdata where
  "adaData = \<lparr> rd_name = ''Ada'', rd_email = ''ada@example.com'', rd_password = ''s3cret!'',
               rd_phoneNumber = ''2348012345678'' \<rparr>"

definition adaParams :: parameters where
  "adaParams = \<lparr> p_name = Some ''Ada'', p_email = Some ''ada@example.com'',
                 p_password = Some ''s3cret!'', p_supportType = None \<rparr>"

definition noParams :: parameters where
  "noParams = \<lparr> p_name = None, p_email = None, p_password = None, p_supportType = None \<rparr>"

text \<open>
  An environment in which every collaborator answers: the clock reads 1000, new codes
  expire at 301000, the snapshot cipher prefixes the email with \<open>''enc:''\<close>, the
  classifier recognises no intent.
\<close>

definition okEnv :: env where
  "okEnv =
     \<lparr> now = 1000, SESSION_IDLE_TIMEOUT_MINUTES = None, rateLimitAllowed = True,
       registerUser = (\<lambda>rd. Inr \<lparr>res_userId = Some 7, res_token = Some ''token-7''\<rparr>),
       loginUser = (\<lambda>em pw. Inr \<lparr>res_userId = Some 7, res_token = None\<rparr>),
       notifySupportTeams = None, startSupportChat = Inr 3, sendOTPEmail = None,
       encryptData = (\<lambda>rd. Some (''enc:'' @ rd_email rd)),
       decryptData = (\<lambda>c. Some \<lparr>rd_name = ''Ada'', rd_email = drop 4 c,
                                  rd_password = ''s3cret!'', rd_phoneNumber = []\<rparr>),
       generateOTP = ''2222'', getOTPExpiry = 301000, generateToken = ''local-token'',
       sanitizeInput = (\<lambda>s. s), normalizePhoneNumber = (\<lambda>s. s),
       isValidRegistrationData = (\<lambda>rd. None), isValidLoginData = (\<lambda>em pw. None),
       existingUser = (\<lambda>em. Some False), handleApiError = (\<lambda>err. err),
       processMessage = (\<lambda>m s. (''unknown'', noParams)),
       downloadMedia = None, uploadImage = Inr ''https://files.example/rx-1'',
       extractPrescriptionFromBuffer = None,
       savePrescription = (\<lambda>orderId. Inr ''Pending'') \<rparr>"


definition supportDownEnv :: env where
  "supportDownEnv = okEnv\<lparr>startSupportChat := Inl ''no agent''\<rparr>"

definition newSession :: session where
  "newSession = \<lparr>state = NEW, data = Some emptyData, lastActivity = 0, supportTeamId = None\<rparr>"

definition registeringSession :: session where
  "registeringSession =
     \<lparr>state = REGISTERING,
      data = Some (emptyData\<lparr>registrationData := Some adaData,
                             waitingForOTPVerification := Some True\<rparr>),
      lastActivity = 0, supportTeamId = None\<rparr>"

definition loggedInSession :: session where
  "loggedInSession =
     \<lparr>state = LOGGED_IN,
      data = Some (emptyData\<lparr>userId := Some 7, token := Some ''token-7'',
                             tokenLastUsed := Some 0\<rparr>),
      lastActivity = 0, supportTeamId = None\<rparr>"

definition adaOtp :: otp_record where
  "adaOtp = \<lparr> otp_email = ''ada@example.com'', otp_code = ''1111'',
              otp_purpose = ''registration'', otp_isUsed = False, otp_usedAt = None,
              otp_expiresAt = 300000, otp_meta = Some ''enc:ada@example.com'' \<rparr>"

definition worldOf :: "session \<Rightarrow> otp_record list \<Rightarrow> world" where
  "worldOf s rows = \<lparr> sessions = (\<lambda>p. if p = adaPhone then Some s else None), otps = rows \<rparr>"




definition lateEnv :: env where
  "lateEnv = okEnv\<lparr>now := 600001\<rparr>"

definition quarterEnv :: env where
  "quarterEnv = okEnv\<lparr>now := 900001, SESSION_IDLE_TIMEOUT_MINUTES := Some ''15''\<rparr>"

definition browsingSession :: session where
  "browsingSession =
     registeringSession\<lparr>data := Some ((dataOrEmpty registeringSession)
        \<lparr>productPagination := Some \<lparr>currentPage = 1, totalPages = 5, pageSize = 5\<rparr>\<rparr>)\<rparr>"

text \<open>The session an event finds in the store (a new one when there is none).\<close>

definition storedSession :: "world \<Rightarrow> string \<Rightarrow> session" where
  "storedSession w phoneNumber =
     (case sessions w phoneNumber of None \<Rightarrow> newSession | Some s \<Rightarrow> s)"

text \<open>
  A second phone without session, a classifier that reads a registration with the
  payload of \<open>ada@example.com\<close> out of the message, the support service failing when
  it is notified, and a later reading of the clock.
\<close>

definition otherPhone :: string where
  "otherPhone = ''2348087654321''"

definition registerEnv :: env where
  "registerEnv = okEnv\<lparr>processMessage := (\<lambda>m s. (''register'', adaParams))\<rparr>"

definition notifyDownEnv :: env where
  "notifyDownEnv = okEnv\<lparr>notifySupportTeams := Some ''support service down''\<rparr>"

definition laterEnv :: env where
  "laterEnv = okEnv\<lparr>now := 2000\<rparr>"

text \<open>
  The store after the second phone has submitted a registration for the address whose
  code 1111 is still unused, after a resend in the same situation, and after the code
  1111 is verified while the support service fails.
\<close>

definition afterSecondPhone :: world where
  "afterSecondPhone =
     fst (handleCustomerMessage registerEnv otherPhone ''register Ada ada@example.com s3cret!''
            (worldOf registeringSession [adaOtp]))"

definition afterResend :: world where
  "afterResend =
     fst (handleCustomerMessage okEnv adaPhone ''resend'' (worldOf registeringSession [adaOtp]))"

definition afterNotifyFailure :: world where
  "afterNotifyFailure =
     fst (handleCustomerMessage notifyDownEnv adaPhone ''1111''
            (worldOf registeringSession [adaOtp]))"







definition loginParams :: parameters where
  "loginParams = \<lparr> p_name = None, p_email = Some ''ada@example.com'',
                   p_password = Some ''s3cret!'', p_supportType = None \<rparr>"

section \<open>Verified properties\<close>

subsection \<open>Pagination: the code refines the specified resolver\<close>

lemma map_eq_list_all2: "(map f s = w) = (length s = length w \<and> list_all2 (\<lambda>a b. f a = b) s w)"
  by (auto simp: list_all2_conv_all_nth list_eq_iff_nth_eq)

lemma toLowerCase_sameUpToCase: "(toLowerCase s = w) = sameUpToCase s w"
  by (simp add: toLowerCase_def sameUpToCase_def map_eq_list_all2)

lemma digit_not_space: "isDigit c \<Longrightarrow> \<not> isWhiteSpace c"
  by (auto simp: isDigit_def isWhiteSpace_def Let_def)

lemma digit_not_sign: "isDigit c \<Longrightarrow> c \<noteq> CHR ''-'' \<and> c \<noteq> CHR ''+''"
  by (auto simp: isDigit_def Let_def)

lemma digit_lower: "isDigit c \<Longrightarrow> lowerChar c = c"
  by (auto simp: isDigit_def lowerChar_def Let_def)

lemma excessBits_small: "a < 2 ^ 53 \<Longrightarrow> excessBits a = 0"
  by (subst excessBits.simps) simp

lemma excessBits_large:
  "2 ^ 53 \<le> a \<Longrightarrow> 1 \<le> excessBits a \<and> 2 ^ 52 \<le> a div 2 ^ excessBits a"
proof (induction a rule: excessBits.induct)
  case (1 a)
  from "1.prems" have nl: "\<not> a < 2 ^ 53" by simp
  have eb: "excessBits a = Suc (excessBits (a div 2))"
    using nl by (subst excessBits.simps) simp
  have dv: "a div 2 ^ Suc (excessBits (a div 2)) = a div 2 div 2 ^ excessBits (a div 2)"
    by (simp add: zdiv_zmult2_eq)
  show ?case
  proof (cases "a div 2 < 2 ^ 53")
    case True
    from "1.prems" have "(2::int) ^ 52 \<le> a div 2" by simp
    with True show ?thesis
      by (simp add: eb excessBits_small)
  next
    case False
    then have "2 ^ 53 \<le> a div 2" by simp
    from "1.IH"[OF nl this] show ?thesis
      by (simp only: eb dv) simp
  qed
qed

lemma roundInt_small: "\<bar>n\<bar> < 2 ^ 53 \<Longrightarrow> roundInt n = n"
  by (simp add: roundInt_def excessBits_small Let_def)

lemma roundInt_large:
  assumes "2 ^ 53 \<le> n"
  shows "2 ^ 53 \<le> roundInt n"
proof -
  define k where "k = excessBits n"
  define q where "q = n div 2 ^ k"
  from assms have pos: "\<not> n < 0" and ab: "\<bar>n\<bar> = n" by simp_all
  from excessBits_large[OF assms] have k: "1 \<le> k" and q: "2 ^ 52 \<le> q"
    by (simp_all add: k_def q_def)
  have "(2::int) ^ 1 \<le> 2 ^ k"
    using k by (intro power_increasing) simp_all
  then have two: "(2::int) \<le> 2 ^ k" by simp
  have "(2::int) ^ 53 = 2 ^ 52 * 2" by simp
  also have "\<dots> \<le> q * 2 ^ k"
    using q two by (intro mult_mono) simp_all
  finally have low: "2 ^ 53 \<le> q * 2 ^ k" .
  have "q * 2 ^ k \<le> (q + 1) * 2 ^ k"
    by (simp add: distrib_right)
  with low have up: "2 ^ 53 \<le> (q + 1) * 2 ^ k"
    by (rule order_trans)
  have r: "roundInt n = (if 2 * (n mod 2 ^ k) > 2 ^ k \<or> (2 * (n mod 2 ^ k) = 2 ^ k \<and> odd q)
                         then q + 1 else q) * 2 ^ k"
    using pos by (simp only: roundInt_def Let_def ab k_def q_def if_False)
  show ?thesis
    using low up by (simp only: r split: if_split) simp
qed

lemma toNumber_small: "\<bar>n\<bar> < 2 ^ 53 \<Longrightarrow> toNumber n = Finite n"
proof -
  assume a: "\<bar>n\<bar> < 2 ^ 53"
  have "(2::int) ^ 53 \<le> 2 ^ 1024"
    by (intro power_increasing) simp_all
  with a have "n < 2 ^ 1024" and "- (2 ^ 1024) < n" by linarith+
  with a show ?thesis
    by (simp add: toNumber_def roundInt_small Let_def)
qed

lemma toNumber_large:
  "2 ^ 53 \<le> n \<Longrightarrow> toNumber n = PosInfinity \<or> (\<exists>v. toNumber n = Finite v \<and> 2 ^ 53 \<le> v)"
  using roundInt_large[of n] by (simp add: toNumber_def Let_def)

lemma digitsValue_nonneg: "list_all isDigit s \<Longrightarrow> 0 \<le> digitsValue s"
proof (induction s rule: rev_induct)
  case Nil
  show ?case by (simp add: digitsValue_def)
next
  case (snoc c s)
  then have "0 \<le> digitVal c"
    by (simp add: isDigit_def digitVal_def Let_def)
  with snoc show ?case
    by (simp add: digitsValue_def)
qed

lemma parseInt_allDigits: "allDigits s \<Longrightarrow> parseInt s = toNumber (digitsValue s)"
proof -
  assume a: "allDigits s"
  then obtain c cs where s: "s = c # cs" and c: "isDigit c" and cs: "list_all isDigit cs"
    by (cases s) (auto simp: allDigits_def)
  have tw: "takeWhile isDigit cs = cs"
    using cs by (simp add: list_all_iff)
  show ?thesis
    using c digit_not_space[OF c] digit_not_sign[OF c]
    by (simp add: parseInt_def s Let_def tw)
qed

lemma digitsValue_snoc: "digitsValue (ds @ [c]) = digitsValue ds * 10 + digitVal c"
  by (simp add: digitsValue_def)

lemma positional_snoc: "positional (ds @ [c]) = positional ds * 10 + digitVal c"
proof -
  have "(\<Sum>i<length ds. digitVal ((ds @ [c]) ! i) * 10 ^ (length (ds @ [c]) - 1 - i))
      = (\<Sum>i<length ds. (digitVal (ds ! i) * 10 ^ (length ds - 1 - i)) * 10)"
  proof (rule sum.cong)
    fix i assume "i \<in> {..<length ds}"
    then have i: "i < length ds" by simp
    then have "length (ds @ [c]) - 1 - i = Suc (length ds - 1 - i)" by simp
    then show "digitVal ((ds @ [c]) ! i) * 10 ^ (length (ds @ [c]) - 1 - i)
       = (digitVal (ds ! i) * 10 ^ (length ds - 1 - i)) * 10"
      using i by (simp add: nth_append)
  qed simp
  then show ?thesis
    by (simp add: positional_def sum_distrib_right)
qed

lemma digitsValue_positional: "digitsValue ds = positional ds"
proof (induction ds rule: rev_induct)
  case Nil
  show ?case by (simp add: digitsValue_def positional_def)
next
  case (snoc c ds)
  then show ?case by (simp add: digitsValue_snoc positional_snoc)
qed

lemma allDigits_not_word:
  assumes "allDigits s"
  shows "toLowerCase s \<noteq> ''next''" and "toLowerCase s \<noteq> ''previous''"
proof -
  have "toLowerCase s = s"
    using assms by (simp add: allDigits_def toLowerCase_def list_all_iff digit_lower map_idI)
  moreover have "\<not> allDigits ''next''" "\<not> allDigits ''previous''"
    by (simp_all add: allDigits_def isDigit_def)
  ultimately show "toLowerCase s \<noteq> ''next''" and "toLowerCase s \<noteq> ''previous''"
    using assms by auto
qed

lemma parsed_page:
  assumes "allDigits s" and "\<bar>tp\<bar> < 2 ^ 53"
  shows "(case parseInt s of
            Finite n \<Rightarrow> if n \<ge> 1 \<and> n \<le> tp then Some n else None
          | _ \<Rightarrow> None)
         = (if 1 \<le> positional s \<and> positional s \<le> tp then Some (positional s) else None)"
proof (cases "digitsValue s < 2 ^ 53")
  case True
  from assms(1) have "0 \<le> digitsValue s"
    by (simp add: allDigits_def digitsValue_nonneg)
  with True have "\<bar>digitsValue s\<bar> < 2 ^ 53" by simp
  then show ?thesis
    by (simp add: parseInt_allDigits[OF assms(1)] toNumber_small digitsValue_positional)
next
  case False
  then have big: "2 ^ 53 \<le> digitsValue s" by simp
  with assms(2) have out: "\<not> positional s \<le> tp"
    by (simp add: digitsValue_positional)
  from toNumber_large[OF big] show ?thesis
  proof
    assume "toNumber (digitsValue s) = PosInfinity"
    with out show ?thesis
      by (simp add: parseInt_allDigits[OF assms(1)])
  next
    assume "\<exists>v. toNumber (digitsValue s) = Finite v \<and> 2 ^ 53 \<le> v"
    then obtain v where v: "toNumber (digitsValue s) = Finite v" and "2 ^ 53 \<le> v"
      by blast
    with assms(2) have "\<not> v \<le> tp" by simp
    with v out show ?thesis
      by (simp add: parseInt_allDigits[OF assms(1)])
  qed
qed

lemma parseNavigationCommand_refines:
  assumes cp: "\<bar>cp\<bar> < 2 ^ 53" and tp: "\<bar>tp\<bar> < 2 ^ 53"
  shows "(parseNavigationCommand (Some m) cp tp = Some p) = resolveTarget_spec (trim m) cp tp p"
proof (cases "m = []")
  case True
  then show ?thesis
    by (simp add: parseNavigationCommand_def resolveTarget_spec_def trim_def
        sameUpToCase_def allDigits_def)
next
  case False
  note ne = this
  have nx: "cp < tp \<Longrightarrow> roundInt (cp + 1) = cp + 1"
    using cp tp by (intro roundInt_small) simp
  have pv: "1 < cp \<Longrightarrow> roundInt (cp - 1) = cp - 1"
    using cp by (intro roundInt_small) simp
  show ?thesis
  proof (cases "allDigits (trim m)")
    case True
    from allDigits_not_word[OF True] parsed_page[OF True tp] True ne
    show ?thesis
      by (auto simp: parseNavigationCommand_def resolveTarget_spec_def Let_def
          toLowerCase_sameUpToCase[symmetric])
  next
    case False
    with ne nx pv show ?thesis
      by (auto simp: parseNavigationCommand_def resolveTarget_spec_def Let_def
          toLowerCase_sameUpToCase[symmetric])
  qed
qed

text \<open>
  C8, as claimed, fails. The numeral is read as a double:
  \<open>''9007199254740993''\<close> is \<open>2 ^ 53 + 1\<close> and is read as \<open>2 ^ 53\<close>, so
  with \<open>2 ^ 53\<close> pages the resolver returns the last page for a numeral that lies
  beyond it. And the message is trimmed before it is compared, so a message that is
  \<open>''next''\<close> between two spaces is taken as the command.
\<close>

theorem C8_rounded_numeral_counterexample:
  "parseNavigationCommand (Some ''9007199254740993'') 1 9007199254740992
     = Some 9007199254740992
   \<and> positional ''9007199254740993'' = 9007199254740993
   \<and> \<not> resolveTarget_spec ''9007199254740993'' 1 9007199254740992 9007199254740992
   \<and> parseNavigationCommand (Some '' next '') 2 5 = Some 3
   \<and> \<not> resolveTarget_spec '' next '' 2 5 3"
proof -
  have a: "parseNavigationCommand (Some ''9007199254740993'') 1 9007199254740992
             = Some 9007199254740992"
    by code_simp
  have "digitsValue ''9007199254740993'' = 9007199254740993" by code_simp
  then have b: "positional ''9007199254740993'' = 9007199254740993"
    by (simp only: digitsValue_positional)
  have nd: "\<not> allDigits '' next ''" by code_simp
  have c: "\<not> resolveTarget_spec ''9007199254740993'' 1 9007199254740992 9007199254740992"
    by (simp add: resolveTarget_spec_def sameUpToCase_def b)
  have d: "parseNavigationCommand (Some '' next '') 2 5 = Some 3" by code_simp
  have e: "\<not> resolveTarget_spec '' next '' 2 5 3"
    by (simp add: resolveTarget_spec_def sameUpToCase_def nd)
  from a b c d e show ?thesis by (intro conjI)
qed

text \<open>
  C8, amended. For page numbers that are safe integers (of magnitude below
  \<open>2 ^ 53\<close>), \<^verbatim>\<open>parseNavigationCommand\<close> returns a page exactly for
  the three command shapes of the specification, read on the message with the white
  space at both ends removed: "next" in any letter case when the current page is not the
  last, "previous" in any letter case when the current page is not the first, and a
  string of digits whose value lies between 1 and the number of pages. Every other
  message, and a message that is no string, yields null. The six results the
  specification lists hold.
\<close>

theorem C8_pagination_resolver:
  assumes "\<bar>cp\<bar> < 2 ^ 53" and "\<bar>tp\<bar> < 2 ^ 53"
  shows
  "(parseNavigationCommand (Some m) cp tp = Some p) = resolveTarget_spec (trim m) cp tp p
   \<and> (parseNavigationCommand (Some m) cp tp = None) = (\<nexists>q. resolveTarget_spec (trim m) cp tp q)
   \<and> parseNavigationCommand None cp tp = None
   \<and> parseNavigationCommand (Some ''next'') 2 5 = Some 3
   \<and> parseNavigationCommand (Some ''next'') 5 5 = None
   \<and> parseNavigationCommand (Some ''previous'') 1 5 = None
   \<and> parseNavigationCommand (Some ''3'') 1 5 = Some 3
   \<and> parseNavigationCommand (Some ''9'') 1 5 = None
   \<and> parseNavigationCommand (Some ''hello'') 1 5 = None"
proof -
  note refines = parseNavigationCommand_refines[OF assms]
  have none: "(parseNavigationCommand (Some m) cp tp = None)
                = (\<nexists>q. resolveTarget_spec (trim m) cp tp q)"
  proof (cases "parseNavigationCommand (Some m) cp tp")
    case None
    then have "\<And>q. \<not> resolveTarget_spec (trim m) cp tp q"
      using refines[of m] by simp
    with None show ?thesis by simp
  next
    case (Some q)
    then have "resolveTarget_spec (trim m) cp tp q"
      using refines[of m q] by simp
    with Some show ?thesis by auto
  qed
  have null: "parseNavigationCommand None cp tp = None"
    by (simp add: parseNavigationCommand_def)
  have e1: "parseNavigationCommand (Some ''next'') 2 5 = Some 3" by code_simp
  have e2: "parseNavigationCommand (Some ''next'') 5 5 = None" by code_simp
  have e3: "parseNavigationCommand (Some ''previous'') 1 5 = None" by code_simp
  have e4: "parseNavigationCommand (Some ''3'') 1 5 = Some 3" by code_simp
  have e5: "parseNavigationCommand (Some ''9'') 1 5 = None" by code_simp
  have e6: "parseNavigationCommand (Some ''hello'') 1 5 = None" by code_simp
  from refines[of m p] none null e1 e2 e3 e4 e5 e6
  show ?thesis by (intro conjI)
qed

theorem C8_pagination_resolver_witness:
  "\<bar>3::int\<bar> < 2 ^ 53 \<and> \<bar>5::int\<bar> < 2 ^ 53
   \<and> resolveTarget_spec ''Previous'' 3 5 2
   \<and> parseNavigationCommand (Some '' Previous '') 3 5 = Some 2
   \<and> \<not> resolveTarget_spec ''007'' 3 5 2
   \<and> parseNavigationCommand (Some ''007'') 3 5 = None"
proof -
  have b1: "\<bar>3::int\<bar> < 2 ^ 53" by simp
  have b2: "\<bar>5::int\<bar> < 2 ^ 53" by simp
  have t1: "trim '' Previous '' = ''Previous''" by code_simp
  have t2: "trim ''007'' = ''007''" by code_simp
  have c1: "parseNavigationCommand (Some '' Previous '') 3 5 = Some 2" by code_simp
  have c2: "parseNavigationCommand (Some ''007'') 3 5 = None" by code_simp
  have r1: "resolveTarget_spec ''Previous'' 3 5 2"
    using C8_pagination_resolver[OF b1 b2, of "'' Previous ''" 2] c1 t1 by simp
  have r2: "\<not> resolveTarget_spec ''007'' 3 5 2"
    using C8_pagination_resolver[OF b1 b2, of "''007''" 2] c2 t2 by simp
  from b1 b2 r1 c1 r2 c2 show ?thesis by (intro conjI)
qed

subsection \<open>The authentication gate\<close>





subsection \<open>Idle timeout\<close>

lemma sessionIdleHandling_other_state:
  "state s \<noteq> LOGGED_IN \<Longrightarrow> sessionIdleHandling e ph s w = ((s, w, []), False)"
  by (simp add: sessionIdleHandling_def)

lemma roundInt_minus: "roundInt (- n) = - roundInt n"
proof -
  consider "n = 0" | "0 < n" | "n < 0" by linarith
  then show ?thesis
  proof cases
    case 1
    then show ?thesis by (simp add: roundInt_def excessBits_small Let_def)
  next
    case 2
    then show ?thesis by (simp add: roundInt_def Let_def)
  next
    case 3
    then show ?thesis by (simp add: roundInt_def Let_def)
  qed
qed

lemma roundInt_exceeds:
  assumes "0 \<le> x" and "x < 2 ^ 53"
  shows "(roundInt y > x) = (y > x)"
proof -
  consider "\<bar>y\<bar> < 2 ^ 53" | "2 ^ 53 \<le> y" | "y \<le> - (2 ^ 53)" by linarith
  then show ?thesis
  proof cases
    case 1
    then show ?thesis by (simp add: roundInt_small)
  next
    case 2
    from roundInt_large[OF 2] 2 assms show ?thesis by linarith
  next
    case 3
    then have "2 ^ 53 \<le> - y" by simp
    from roundInt_large[OF this] have "roundInt y \<le> - (2 ^ 53)"
      by (simp add: roundInt_minus)
    with 3 assms show ?thesis by linarith
  qed
qed

lemma idleMs_minutes:
  assumes "0 \<le> mins" and "mins * 60000 < 2 ^ 53" and "parseInt v = toNumber mins"
      and "v \<noteq> []" and "SESSION_IDLE_TIMEOUT_MINUTES e = Some v"
  shows "idleMs e = Finite (mins * 60 * 1000)"
proof -
  from assms(1,2) have a: "\<bar>mins\<bar> < 2 ^ 53" and b: "\<bar>mins * 60\<bar> < 2 ^ 53"
    and c: "\<bar>mins * 60 * 1000\<bar> < 2 ^ 53"
    by simp_all
  have "idleMs e = timesConst (timesConst (parseInt v) 60) 1000"
    using assms(4,5) by (simp add: idleMs_def)
  also have "parseInt v = Finite mins"
    by (simp only: assms(3) toNumber_small[OF a])
  also have "timesConst (Finite mins) 60 = Finite (mins * 60)"
    by (simp only: timesConst_def jsnumber.case toNumber_small[OF b])
  also have "timesConst (Finite (mins * 60)) 1000 = Finite (mins * 60 * 1000)"
    by (simp only: timesConst_def jsnumber.case toNumber_small[OF c])
  finally show ?thesis .
qed

lemma idleMs_default:
  assumes "SESSION_IDLE_TIMEOUT_MINUTES e = None \<or> SESSION_IDLE_TIMEOUT_MINUTES e = Some []"
  shows "idleMs e = Finite (10 * 60 * 1000)"
proof -
  have "timesConst (timesConst (parseInt ''10'') 60) 1000 = Finite 600000" by code_simp
  with assms show ?thesis
    by (auto simp: idleMs_def)
qed

lemma idleMs_configured:
  assumes "case SESSION_IDLE_TIMEOUT_MINUTES e of
             None \<Rightarrow> mins = 10
           | Some v \<Rightarrow> if v = [] then mins = 10 else allDigits v \<and> positional v = mins"
      and "mins * 60000 < 2 ^ 53"
  shows "idleMs e = Finite (mins * 60 * 1000) \<and> 0 \<le> mins"
proof (cases "SESSION_IDLE_TIMEOUT_MINUTES e")
  case None
  with assms(1) idleMs_default[of e] show ?thesis by simp
next
  case (Some v)
  show ?thesis
  proof (cases "v = []")
    case True
    with Some assms(1) idleMs_default[of e] show ?thesis by simp
  next
    case False
    with Some assms(1) have d: "allDigits v" and m: "positional v = mins" by simp_all
    from d have nn: "0 \<le> mins"
      using digitsValue_nonneg[of v] by (simp add: allDigits_def digitsValue_positional m)
    have "parseInt v = toNumber mins"
      using parseInt_allDigits[OF d] by (simp add: digitsValue_positional m)
    from idleMs_minutes[OF nn assms(2) this False Some] nn show ?thesis by simp
  qed
qed

lemma idleExpired_configured:
  assumes "case SESSION_IDLE_TIMEOUT_MINUTES e of
             None \<Rightarrow> mins = 10
           | Some v \<Rightarrow> if v = [] then mins = 10 else allDigits v \<and> positional v = mins"
      and "mins * 60000 < 2 ^ 53"
  shows "idleExpired e d = (\<exists>t. tokenLastUsed d = Some t \<and> now e - t > mins * 60 * 1000)"
proof -
  from idleMs_configured[OF assms] have ms: "idleMs e = Finite (mins * 60 * 1000)"
    and nn: "0 \<le> mins" by simp_all
  have lo: "0 \<le> mins * 60 * 1000" using nn by simp
  have hi: "mins * 60 * 1000 < 2 ^ 53" using assms(2) by simp
  show ?thesis
  proof (cases "tokenLastUsed d")
    case None
    then show ?thesis by (simp add: idleExpired_def)
  next
    case (Some t)
    have "idleExpired e d = (roundInt (now e - t) > mins * 60 * 1000)"
      by (simp only: idleExpired_def Some option.case ms exceeds_def jsnumber.case)
    also have "\<dots> = (now e - t > mins * 60 * 1000)"
      by (rule roundInt_exceeds[OF lo hi])
    finally show ?thesis
      by (simp add: Some)
  qed
qed

lemma sessionIdleHandling_stop:
  "state s = LOGGED_IN \<Longrightarrow>
     snd (sessionIdleHandling e ph s w) = idleExpired e (dataOrEmpty s)"
  by (simp add: sessionIdleHandling_def dataOrEmpty_def Let_def)

lemma sessionIdleHandling_expired:
  assumes "state s = LOGGED_IN" and "idleExpired e (dataOrEmpty s)"
  shows "sessionIdleHandling e ph s w =
           ((s\<lparr>state := NEW, data := Some emptyData\<rparr>,
             saveSession ph (s\<lparr>state := NEW, data := Some emptyData\<rparr>) w,
             [SessionSave, Send MsgIdleLogout]), True)"
  using assms by (simp add: sessionIdleHandling_def dataOrEmpty_def Let_def)

lemma sessionIdleHandling_alive:
  assumes "state s = LOGGED_IN" and "\<not> idleExpired e (dataOrEmpty s)"
      and "sessionIdleHandling e ph s w = ((s', w', effs), stop)"
  shows "\<not> stop \<and> state s' = LOGGED_IN \<and> sessions w' ph = Some s'
         \<and> tokenLastUsed (dataOrEmpty s') = Some (now e)
         \<and> otherFields (dataOrEmpty s') = otherFields (dataOrEmpty s)"
  using assms
  by (auto simp: sessionIdleHandling_def dataOrEmpty_def Let_def saveSession_def
      split: if_splits)

lemma sessions_saveSession: "sessions (saveSession ph s w) ph = Some s"
  by (simp add: saveSession_def)


lemma webhookMedia_state:
  assumes "sessions w ph = Some s"
  shows "\<exists>s'. sessions (fst (webhookMedia e ph mm w)) ph = Some s' \<and> state s' = state s"
  using assms
  by (auto simp: webhookMedia_def webhookMediaPending_def Let_def sessions_saveSession
      split: option.splits sum.splits media_message.splits)

lemma handleCustomerMessage_rate_limited:
  "\<not> rateLimitAllowed e \<Longrightarrow> handleCustomerMessage e ph m w = (w, [Send MsgRateLimited])"
  by (simp add: handleCustomerMessage_def beginEvent_def)

lemma handleCustomerMessage_expired:
  assumes "rateLimitAllowed e" and "sessions wb ph = Some sb"
      and "sessionIdleHandling e ph (sb\<lparr>lastActivity := now e\<rparr>)
             (saveSession ph (sb\<lparr>lastActivity := now e\<rparr>) wb) = ((s', w', effs), True)"
  shows "handleCustomerMessage e ph m wb = (w', SessionSave # effs)"
  using assms by (simp add: handleCustomerMessage_def beginEvent_def Let_def)

text \<open>
  C4, as claimed, fails. The session of \<open>adaPhone\<close> is
  \<^verbatim>\<open>LOGGED_IN\<close>, its token was last used at time 0, the clock reads 600001
  and the timeout is the default of ten minutes: the session is expired. The next
  inbound event is a text message that the rate limit refuses, or an image: after
  either the stored session is still \<^verbatim>\<open>LOGGED_IN\<close> with its user and its
  token.
\<close>

theorem C4_expired_session_kept_counterexample:
  "idleExpired lateEnv (dataOrEmpty loggedInSession)
   \<and> sessions (fst (handleCustomerMessage (lateEnv\<lparr>rateLimitAllowed := False\<rparr>) adaPhone
                      ''hello'' (worldOf loggedInSession []))) adaPhone
       = Some loggedInSession
   \<and> snd (handleCustomerMessage (lateEnv\<lparr>rateLimitAllowed := False\<rparr>) adaPhone
            ''hello'' (worldOf loggedInSession []))
       = [Send MsgRateLimited]
   \<and> sessions (fst (webhookMedia lateEnv adaPhone (ImageMessage (Some ''image/png'') None)
                      (worldOf loggedInSession []))) adaPhone
       = Some (loggedInSession\<lparr>data := Some (emptyData
            \<lparr>userId := Some 7, token := Some ''token-7'', tokenLastUsed := Some 0,
             pendingPrescriptionUrl := Some ''https://files.example/rx-1''\<rparr>)\<rparr>)
   \<and> state loggedInSession = LOGGED_IN"
proof -
  have a: "idleExpired lateEnv (dataOrEmpty loggedInSession)" by code_simp
  have b: "sessions (fst (handleCustomerMessage (lateEnv\<lparr>rateLimitAllowed := False\<rparr>) adaPhone
                      ''hello'' (worldOf loggedInSession []))) adaPhone
       = Some loggedInSession"
    by code_simp
  have c: "snd (handleCustomerMessage (lateEnv\<lparr>rateLimitAllowed := False\<rparr>) adaPhone
            ''hello'' (worldOf loggedInSession []))
       = [Send MsgRateLimited]"
    by code_simp
  have d: "sessions (fst (webhookMedia lateEnv adaPhone (ImageMessage (Some ''image/png'') None)
                      (worldOf loggedInSession []))) adaPhone
       = Some (loggedInSession\<lparr>data := Some (emptyData
            \<lparr>userId := Some 7, token := Some ''token-7'', tokenLastUsed := Some 0,
             pendingPrescriptionUrl := Some ''https://files.example/rx-1''\<rparr>)\<rparr>)"
    by code_simp
  have e: "state loggedInSession = LOGGED_IN" by code_simp
  from a b c d e show ?thesis by (intro conjI)
qed

text \<open>
  C4, amended. The configured timeout is \<open>mins\<close> minutes: the numeral in
  \<^verbatim>\<open>SESSION_IDLE_TIMEOUT_MINUTES\<close>, or 10 when the variable is unset or
  empty (its milliseconds a safe integer). For a session in state
  \<^verbatim>\<open>LOGGED_IN\<close> the idle handling finds the session expired exactly when
  \<^verbatim>\<open>tokenLastUsed\<close> is set and the time since then exceeds
  \<open>mins * 60 * 1000\<close> milliseconds. When it does, and only then, the session is
  committed with state \<^verbatim>\<open>NEW\<close> and empty data, the logout notice is sent and
  the event ends; a session that is not expired stays \<^verbatim>\<open>LOGGED_IN\<close> with
  the stamp renewed. In every other state the handling changes nothing. The reset
  happens on the next inbound text message that passes the rate limit, whatever the
  message says: a text message that the rate limit refuses changes nothing, and an
  image or a document leaves the state of the stored session as it is.
\<close>

theorem C4_idle_timeout:
  assumes run: "sessionIdleHandling e ph s w = ((s', w', effs), expired)"
      and cfg: "case SESSION_IDLE_TIMEOUT_MINUTES e of
                  None \<Rightarrow> mins = 10
                | Some v \<Rightarrow> if v = [] then mins = 10 else allDigits v \<and> positional v = mins"
      and safe: "mins * 60000 < 2 ^ 53"
  shows "(state s = LOGGED_IN \<longrightarrow>
            expired = (\<exists>t. tokenLastUsed (dataOrEmpty s) = Some t
                           \<and> now e - t > mins * 60 * 1000))
       \<and> (expired \<longrightarrow> state s = LOGGED_IN \<and> state s' = NEW \<and> data s' = Some emptyData
                        \<and> sessions w' ph = Some s' \<and> effs = [SessionSave, Send MsgIdleLogout])
       \<and> (state s = LOGGED_IN \<and> \<not> expired \<longrightarrow> state s' = LOGGED_IN \<and> sessions w' ph = Some s'
                        \<and> tokenLastUsed (dataOrEmpty s') = Some (now e))
       \<and> (state s \<noteq> LOGGED_IN \<longrightarrow> \<not> expired \<and> s' = s \<and> w' = w \<and> effs = [])
       \<and> (rateLimitAllowed e \<and> sessions wb ph = Some sb \<and> s = sb\<lparr>lastActivity := now e\<rparr>
            \<and> w = saveSession ph s wb \<and> expired
          \<longrightarrow> handleCustomerMessage e ph m wb = (w', [SessionSave, SessionSave, Send MsgIdleLogout]))
       \<and> (\<not> rateLimitAllowed e
          \<longrightarrow> handleCustomerMessage e ph m wb = (wb, [Send MsgRateLimited]))
       \<and> (sessions wb ph = Some sb
          \<longrightarrow> (\<exists>s1. sessions (fst (webhookMedia e ph mm wb)) ph = Some s1 \<and> state s1 = state sb))"
proof -
  have a: "state s = LOGGED_IN \<longrightarrow>
            expired = (\<exists>t. tokenLastUsed (dataOrEmpty s) = Some t
                           \<and> now e - t > mins * 60 * 1000)"
    using run sessionIdleHandling_stop[of s e ph w]
      idleExpired_configured[OF cfg safe, of "dataOrEmpty s"]
    by auto
  have b: "expired \<longrightarrow> state s = LOGGED_IN \<and> state s' = NEW \<and> data s' = Some emptyData
                        \<and> sessions w' ph = Some s' \<and> effs = [SessionSave, Send MsgIdleLogout]"
  proof
    assume x: expired
    have l: "state s = LOGGED_IN"
      using x run sessionIdleHandling_other_state[of s e ph w] by auto
    then have "idleExpired e (dataOrEmpty s)"
      using x run sessionIdleHandling_stop[of s e ph w] by simp
    from sessionIdleHandling_expired[OF l this, of ph w] run l
    show "state s = LOGGED_IN \<and> state s' = NEW \<and> data s' = Some emptyData
            \<and> sessions w' ph = Some s' \<and> effs = [SessionSave, Send MsgIdleLogout]"
      by (auto simp: sessions_saveSession)
  qed
  have c: "state s = LOGGED_IN \<and> \<not> expired \<longrightarrow> state s' = LOGGED_IN \<and> sessions w' ph = Some s'
                        \<and> tokenLastUsed (dataOrEmpty s') = Some (now e)"
  proof
    assume x: "state s = LOGGED_IN \<and> \<not> expired"
    then have "\<not> idleExpired e (dataOrEmpty s)"
      using run sessionIdleHandling_stop[of s e ph w] by simp
    from sessionIdleHandling_alive[OF _ this run] x
    show "state s' = LOGGED_IN \<and> sessions w' ph = Some s'
            \<and> tokenLastUsed (dataOrEmpty s') = Some (now e)"
      by simp
  qed
  have d: "state s \<noteq> LOGGED_IN \<longrightarrow> \<not> expired \<and> s' = s \<and> w' = w \<and> effs = []"
    using run sessionIdleHandling_other_state[of s e ph w] by auto
  have f: "rateLimitAllowed e \<and> sessions wb ph = Some sb \<and> s = sb\<lparr>lastActivity := now e\<rparr>
            \<and> w = saveSession ph s wb \<and> expired
          \<longrightarrow> handleCustomerMessage e ph m wb = (w', [SessionSave, SessionSave, Send MsgIdleLogout])"
  proof (intro impI, elim conjE)
    assume h: "rateLimitAllowed e" "sessions wb ph = Some sb"
      and eq: "s = sb\<lparr>lastActivity := now e\<rparr>" "w = saveSession ph s wb" and x: expired
    from b x have effs: "effs = [SessionSave, Send MsgIdleLogout]" by simp
    from run eq x
    have "sessionIdleHandling e ph (sb\<lparr>lastActivity := now e\<rparr>)
             (saveSession ph (sb\<lparr>lastActivity := now e\<rparr>) wb) = ((s', w', effs), True)"
      by simp
    from handleCustomerMessage_expired[OF h this, of m] effs
    show "handleCustomerMessage e ph m wb = (w', [SessionSave, SessionSave, Send MsgIdleLogout])"
      by simp
  qed
  have g: "\<not> rateLimitAllowed e
          \<longrightarrow> handleCustomerMessage e ph m wb = (wb, [Send MsgRateLimited])"
    using handleCustomerMessage_rate_limited[of e ph m wb] by simp
  have k: "sessions wb ph = Some sb
          \<longrightarrow> (\<exists>s1. sessions (fst (webhookMedia e ph mm wb)) ph = Some s1 \<and> state s1 = state sb)"
    using webhookMedia_state[of wb ph sb e mm] by simp
  from a b c d f g k show ?thesis by (intro conjI)
qed

text \<open>
  With the timeout configured as 15 minutes of 60000 milliseconds, a token last used
  at time 0 and the clock at 900001, the next text message logs the session out.
\<close>

theorem C4_idle_timeout_witness:
  "SESSION_IDLE_TIMEOUT_MINUTES quarterEnv = Some ''15''
   \<and> allDigits ''15'' \<and> positional ''15'' = 15 \<and> (15::int) * 60000 < 2 ^ 53
   \<and> rateLimitAllowed quarterEnv
   \<and> state loggedInSession = LOGGED_IN
   \<and> tokenLastUsed (dataOrEmpty loggedInSession) = Some 0
   \<and> now quarterEnv - 0 > (15::int) * 60 * 1000
   \<and> snd (sessionIdleHandling quarterEnv adaPhone (loggedInSession\<lparr>lastActivity := 900001\<rparr>)
            (saveSession adaPhone (loggedInSession\<lparr>lastActivity := 900001\<rparr>)
               (worldOf loggedInSession [])))
   \<and> snd (handleCustomerMessage quarterEnv adaPhone ''hello'' (worldOf loggedInSession []))
       = [SessionSave, SessionSave, Send MsgIdleLogout]
   \<and> \<not> snd (sessionIdleHandling (quarterEnv\<lparr>now := 900000\<rparr>) adaPhone loggedInSession
              (worldOf loggedInSession []))"
proof -
  define s where "s = loggedInSession\<lparr>lastActivity := 900001\<rparr>"
  define w where "w = saveSession adaPhone s (worldOf loggedInSession [])"
  have v: "SESSION_IDLE_TIMEOUT_MINUTES quarterEnv = Some ''15''" by code_simp
  have v2: "SESSION_IDLE_TIMEOUT_MINUTES (quarterEnv\<lparr>now := 900000\<rparr>) = Some ''15''"
    by code_simp
  have ad: "allDigits ''15''" by code_simp
  have "digitsValue ''15'' = 15" by code_simp
  then have po: "positional ''15'' = 15" by (simp only: digitsValue_positional)
  have sf: "(15::int) * 60000 < 2 ^ 53" by simp
  have cfg: "case SESSION_IDLE_TIMEOUT_MINUTES quarterEnv of
               None \<Rightarrow> (15::int) = 10
             | Some v \<Rightarrow> if v = [] then (15::int) = 10 else allDigits v \<and> positional v = 15"
    using ad po by (simp add: v)
  have cfg2: "case SESSION_IDLE_TIMEOUT_MINUTES (quarterEnv\<lparr>now := 900000\<rparr>) of
               None \<Rightarrow> (15::int) = 10
             | Some v \<Rightarrow> if v = [] then (15::int) = 10 else allDigits v \<and> positional v = 15"
    using ad po by (simp add: v2)
  have rl: "rateLimitAllowed quarterEnv" by code_simp
  have nw: "now quarterEnv = 900001" by code_simp
  have nw2: "now (quarterEnv\<lparr>now := 900000\<rparr>) = 900000" by simp
  have l: "state loggedInSession = LOGGED_IN" by code_simp
  have ls: "state s = LOGGED_IN" by (simp add: s_def l)
  have t: "tokenLastUsed (dataOrEmpty loggedInSession) = Some 0" by code_simp
  have ts: "tokenLastUsed (dataOrEmpty s) = Some 0"
    using t by (simp add: s_def dataOrEmpty_def)
  have st: "sessions (worldOf loggedInSession []) adaPhone = Some loggedInSession"
    by (simp add: worldOf_def)
  obtain s' w' effs expired
    where run: "sessionIdleHandling quarterEnv adaPhone s w = ((s', w', effs), expired)"
    by (metis prod.exhaust)
  note inst = C4_idle_timeout[OF run cfg sf,
      where wb = "worldOf loggedInSession []" and sb = loggedInSession and m = "''hello''"]
  have ex: expired
    using inst ls ts nw by simp
  have msg: "handleCustomerMessage quarterEnv adaPhone ''hello'' (worldOf loggedInSession [])
               = (w', [SessionSave, SessionSave, Send MsgIdleLogout])"
    using inst rl st ex by (simp add: s_def w_def nw)
  obtain s2 w2 effs2 expired2
    where run2: "sessionIdleHandling (quarterEnv\<lparr>now := 900000\<rparr>) adaPhone loggedInSession
                   (worldOf loggedInSession []) = ((s2, w2, effs2), expired2)"
    by (metis prod.exhaust)
  have nx: "\<not> expired2"
    using C4_idle_timeout[OF run2 cfg2 sf] l t nw2 by simp
  have r1: "snd (sessionIdleHandling quarterEnv adaPhone (loggedInSession\<lparr>lastActivity := 900001\<rparr>)
            (saveSession adaPhone (loggedInSession\<lparr>lastActivity := 900001\<rparr>)
               (worldOf loggedInSession [])))"
    using run ex by (simp add: s_def w_def)
  have r2: "snd (handleCustomerMessage quarterEnv adaPhone ''hello'' (worldOf loggedInSession []))
       = [SessionSave, SessionSave, Send MsgIdleLogout]"
    using msg by simp
  have r3: "\<not> snd (sessionIdleHandling (quarterEnv\<lparr>now := 900000\<rparr>) adaPhone loggedInSession
              (worldOf loggedInSession []))"
    using run2 nx by simp
  have n0: "now quarterEnv - 0 > (15::int) * 60 * 1000" by (simp add: nw)
  from v ad po sf rl l t n0 r1 r2 r3 show ?thesis by (intro conjI)
qed

subsection \<open>The order of the gates\<close>

lemma routeMessage_support:
  "state s = SUPPORT_CHAT \<Longrightarrow>
     routeMessage s m = (if closeChatMatch m then SupportChatClose else SupportChatForward)"
  by (simp add: routeMessage_def supportChatGate_def)

lemma routeMessage_attach:
  "state s \<noteq> SUPPORT_CHAT \<Longrightarrow> attachGate s m = Some r \<Longrightarrow> routeMessage s m = r"
  by (simp add: routeMessage_def supportChatGate_def)

lemma routeMessage_productPage:
  "state s \<noteq> SUPPORT_CHAT \<Longrightarrow> attachGate s m = None \<Longrightarrow> productPageGate s m = Some r
     \<Longrightarrow> routeMessage s m = r"
  by (simp add: routeMessage_def supportChatGate_def)

lemma routeMessage_doctorPage:
  "state s \<noteq> SUPPORT_CHAT \<Longrightarrow> attachGate s m = None \<Longrightarrow> productPageGate s m = None
     \<Longrightarrow> doctorPageGate s m = Some r \<Longrightarrow> routeMessage s m = r"
  by (simp add: routeMessage_def supportChatGate_def)

lemma routeMessage_otp:
  "state s \<noteq> SUPPORT_CHAT \<Longrightarrow> attachGate s m = None \<Longrightarrow> productPageGate s m = None
     \<Longrightarrow> doctorPageGate s m = None
     \<Longrightarrow> routeMessage s m = (case otpGate s m of Some r \<Rightarrow> r | None \<Rightarrow> ProcessWithNLP)"
  by (simp add: routeMessage_def supportChatGate_def split: option.splits)

lemma attachGate_Some:
  "attachMatch m = Some orderId \<Longrightarrow>
     attachGate s m = Some (QuickAttach orderId)
     \<or> attachGate s m = Some (QuickAttachNothingPending orderId)"
  by (simp add: attachGate_def)

lemma attachGate_None: "(attachGate s m = None) = (attachMatch m = None)"
  by (simp add: attachGate_def split: option.splits)

text \<open>
  C5, as claimed, fails. With a one-time code pending, the message \<open>''rx 12345''\<close>
  is answered by the quick-attach gate, where the order of the specification answers
  with the prompt for the code; and with a product cursor of five pages the four digits
  \<open>''0003''\<close> select page 3, where the order of the specification verifies them as
  a code.
\<close>

theorem C5_otp_gate_not_first_counterexample:
  "state registeringSession = REGISTERING
   \<and> otpGate registeringSession ''rx 12345'' = Some OtpPrompt
   \<and> routeMessage_spec registeringSession ''rx 12345'' = OtpPrompt
   \<and> routeMessage registeringSession ''rx 12345'' = QuickAttachNothingPending ''12345''
   \<and> routeMessage_spec browsingSession ''0003'' = OtpVerification ''0003''
   \<and> routeMessage browsingSession ''0003'' = ProductPage 3"
  by code_simp

text \<open>
  C5, amended. The gates are tried in this order: the support chat; the quick-attach
  command; the product cursor; the doctor cursor; the pending one-time code; and the
  message reaches intent classification only when none of them takes it. A gate is
  consulted only when every gate before it let the message pass, so the pending
  one-time code is looked at after the quick-attach command and the cursors.
\<close>

theorem C5_dispatch_order:
  "(state s = SUPPORT_CHAT \<longrightarrow>
      routeMessage s m = (if closeChatMatch m then SupportChatClose else SupportChatForward))
   \<and> (state s \<noteq> SUPPORT_CHAT \<and> attachMatch m = Some orderId \<longrightarrow>
        routeMessage s m = QuickAttach orderId
        \<or> routeMessage s m = QuickAttachNothingPending orderId)
   \<and> (state s \<noteq> SUPPORT_CHAT \<and> attachMatch m = None \<and> productPageGate s m = Some r \<longrightarrow>
        routeMessage s m = r)
   \<and> (state s \<noteq> SUPPORT_CHAT \<and> attachMatch m = None \<and> productPageGate s m = None
        \<and> doctorPageGate s m = Some r \<longrightarrow> routeMessage s m = r)
   \<and> (state s \<noteq> SUPPORT_CHAT \<and> attachMatch m = None \<and> productPageGate s m = None
        \<and> doctorPageGate s m = None \<and> otpGate s m = Some r \<longrightarrow> routeMessage s m = r)
   \<and> (state s \<noteq> SUPPORT_CHAT \<and> attachMatch m = None \<and> productPageGate s m = None
        \<and> doctorPageGate s m = None \<and> otpGate s m = None \<longrightarrow> routeMessage s m = ProcessWithNLP)"
proof -
  have a: "state s = SUPPORT_CHAT \<longrightarrow>
      routeMessage s m = (if closeChatMatch m then SupportChatClose else SupportChatForward)"
    using routeMessage_support by blast
  have b: "state s \<noteq> SUPPORT_CHAT \<and> attachMatch m = Some orderId \<longrightarrow>
        routeMessage s m = QuickAttach orderId
        \<or> routeMessage s m = QuickAttachNothingPending orderId"
    using attachGate_Some[of m orderId s] routeMessage_attach[of s m] by auto
  have c: "state s \<noteq> SUPPORT_CHAT \<and> attachMatch m = None \<and> productPageGate s m = Some r \<longrightarrow>
        routeMessage s m = r"
    using routeMessage_productPage[of s m r] attachGate_None[of s m] by simp
  have d: "state s \<noteq> SUPPORT_CHAT \<and> attachMatch m = None \<and> productPageGate s m = None
        \<and> doctorPageGate s m = Some r \<longrightarrow> routeMessage s m = r"
    using routeMessage_doctorPage[of s m r] attachGate_None[of s m] by simp
  have f: "state s \<noteq> SUPPORT_CHAT \<and> attachMatch m = None \<and> productPageGate s m = None
        \<and> doctorPageGate s m = None \<and> otpGate s m = Some r \<longrightarrow> routeMessage s m = r"
    using routeMessage_otp[of s m] attachGate_None[of s m] by simp
  have g: "state s \<noteq> SUPPORT_CHAT \<and> attachMatch m = None \<and> productPageGate s m = None
        \<and> doctorPageGate s m = None \<and> otpGate s m = None \<longrightarrow> routeMessage s m = ProcessWithNLP"
    using routeMessage_otp[of s m] attachGate_None[of s m] by simp
  from a b c d f g show ?thesis by (intro conjI)
qed

theorem C5_dispatch_order_witness:
  "state browsingSession \<noteq> SUPPORT_CHAT
   \<and> attachMatch ''0003'' = None
   \<and> productPageGate browsingSession ''0003'' = Some (ProductPage 3)
   \<and> otpGate browsingSession ''0003'' = Some (OtpVerification ''0003'')
   \<and> routeMessage browsingSession ''0003'' = ProductPage 3"
proof -
  have a: "state browsingSession \<noteq> SUPPORT_CHAT" by code_simp
  have b: "attachMatch ''0003'' = None" by code_simp
  have c: "productPageGate browsingSession ''0003'' = Some (ProductPage 3)" by code_simp
  have d: "otpGate browsingSession ''0003'' = Some (OtpVerification ''0003'')" by code_simp
  have "routeMessage browsingSession ''0003'' = ProductPage 3"
    using C5_dispatch_order[of browsingSession "''0003''" _ "ProductPage 3"] a b c by blast
  with a b c d show ?thesis by (intro conjI)
qed

subsection \<open>A failed support request\<close>

lemma handleSupportRequest_failure:
  "startSupportChat e = Inl err \<Longrightarrow>
     sessions (fst (handleSupportRequest e ph s p w)) ph
       = Some (s\<lparr>state := LOGGED_IN, supportTeamId := None\<rparr>)"
  by (simp add: handleSupportRequest_def Let_def sessions_saveSession)

text \<open>
  C6. A session in state \<^verbatim>\<open>NEW\<close> asks for support and
  \<^verbatim>\<open>startSupportChat\<close> throws: the handler's \<^verbatim>\<open>catch\<close>
  commits the state \<^verbatim>\<open>LOGGED_IN\<close>, so a session that was not logged in
  before the handler failed is logged in after it, without user or token.
\<close>

theorem C6_failed_support_request_logs_in:
  "state newSession = NEW
   \<and> \<not> isAuthenticatedSession (Some newSession)
   \<and> startSupportChat supportDownEnv = Inl ''no agent''
   \<and> snd (handleSupportRequest supportDownEnv adaPhone newSession adaParams
             (worldOf newSession []))
       = [CallStartSupportChat ''general'', SessionSave, Send MsgSupportUnavailable]
   \<and> map_option state
        (sessions (fst (handleSupportRequest supportDownEnv adaPhone newSession adaParams
                          (worldOf newSession []))) adaPhone) = Some LOGGED_IN
   \<and> map_option data
        (sessions (fst (handleSupportRequest supportDownEnv adaPhone newSession adaParams
                          (worldOf newSession []))) adaPhone) = Some (Some emptyData)
   \<and> isAuthenticatedSession
        (sessions (fst (handleSupportRequest supportDownEnv adaPhone newSession adaParams
                          (worldOf newSession []))) adaPhone)"
  by code_simp

subsection \<open>Looking up one-time-code rows\<close>







lemma recoverRegistrationData_email:
  "recoverRegistrationData e ph r = Some rd \<Longrightarrow> rd_email rd \<noteq> []"
  by (auto simp: recoverRegistrationData_def split: option.splits if_splits)

subsection \<open>The branches of the verification\<close>



lemma registrationLost_state:
  "map_option state (sessions (fst (registrationLost ph (sessions w ph) reply caught w)) ph)
     = map_option state (sessions w ph)"
  by (simp add: registrationLost_def sessions_saveSession split: option.splits)

lemma registrationLost_token:
  "map_option (token \<circ> dataOrEmpty)
      (sessions (fst (registrationLost ph (sessions w ph) reply caught w)) ph)
     = map_option (token \<circ> dataOrEmpty) (sessions w ph)"
  by (simp add: registrationLost_def sessions_saveSession dataOrEmpty_def split: option.splits)


lemma registrationFailed_sessions:
  "sessions (fst (registrationFailed e ph i err s sofar w)) ph
     = (case data s of
          None \<Rightarrow> sessions w ph
        | Some d \<Rightarrow> Some (s\<lparr>data := Some (d\<lparr>waitingForOTPVerification := Some True\<rparr>)\<rparr>))"
  by (simp add: registrationFailed_def Let_def sessions_saveSession split: option.splits)


text \<open>The six ways through the verification handler.\<close>

lemma verification_cases:
  fixes e ph s otpCode w
  defines "otp \<equiv> trim otpCode"
  defines "res \<equiv> handleRegistrationOTPVerification e ph s otpCode w"
  obtains
    (format) "\<not> (length otp = 4 \<and> list_all isDigit otp)" "res = (w, [Send MsgInvalidOtpFormat])"
  | (lost) "length otp = 4 \<and> list_all isDigit otp"
           "missingRegistration (resolveRegistrationData e ph s otp w)"
           "res = registrationLost ph (sessions w ph) MsgRegistrationSessionExpired
                    MsgErrorVerifyingOtp w"
  | (nomatch) rd where "length otp = 4 \<and> list_all isDigit otp"
           "resolveRegistrationData e ph s otp w = Some rd" "rd_email rd \<noteq> []"
           "resolveOtpRecord (rd_email rd) otp (otps w) = None" "res = (w, [Send MsgInvalidOtp])"
  | (used) rd i where "length otp = 4 \<and> list_all isDigit otp"
           "resolveRegistrationData e ph s otp w = Some rd" "rd_email rd \<noteq> []"
           "resolveOtpRecord (rd_email rd) otp (otps w) = Some i" "otp_isUsed (otps w ! i)"
           "res = (w, [Send MsgOtpAlreadyUsed])"
  | (expired) rd i where "length otp = 4 \<and> list_all isDigit otp"
           "resolveRegistrationData e ph s otp w = Some rd" "rd_email rd \<noteq> []"
           "resolveOtpRecord (rd_email rd) otp (otps w) = Some i" "\<not> otp_isUsed (otps w ! i)"
           "now e > otp_expiresAt (otps w ! i)" "res = (w, [Send MsgOtpExpired])"
  | (consume) rd i where "length otp = 4 \<and> list_all isDigit otp"
           "resolveRegistrationData e ph s otp w = Some rd" "rd_email rd \<noteq> []"
           "resolveOtpRecord (rd_email rd) otp (otps w) = Some i" "\<not> otp_isUsed (otps w ! i)"
           "now e \<le> otp_expiresAt (otps w ! i)"
           "res = completeRegistration e ph i rd
                    (case sessions w ph of None \<Rightarrow> s | Some fs \<Rightarrow> fs)
                    (w\<lparr>otps := (otps w)[i := (otps w ! i)\<lparr>otp_isUsed := True,
                                                          otp_usedAt := Some (now e)\<rparr>]\<rparr>)"
proof (cases "length otp = 4 \<and> list_all isDigit otp")
  case False
  then have "res = (w, [Send MsgInvalidOtpFormat])"
    unfolding res_def otp_def handleRegistrationOTPVerification_def Let_def by simp
  with False show ?thesis by (rule format)
next
  case fmt: True
  show ?thesis
  proof (cases "resolveRegistrationData e ph s otp w")
    case None
    then have "res = registrationLost ph (sessions w ph) MsgRegistrationSessionExpired
                    MsgErrorVerifyingOtp w"
      using fmt unfolding res_def otp_def handleRegistrationOTPVerification_def Let_def by simp
    moreover have "missingRegistration (resolveRegistrationData e ph s otp w)"
      using None by (simp add: missingRegistration_def)
    ultimately show ?thesis using fmt lost by blast
  next
    case (Some rd)
    show ?thesis
    proof (cases "rd_email rd = []")
      case True
      then have "res = registrationLost ph (sessions w ph) MsgRegistrationSessionExpired
                    MsgErrorVerifyingOtp w"
        using fmt Some unfolding res_def otp_def handleRegistrationOTPVerification_def Let_def
        by simp
      moreover have "missingRegistration (resolveRegistrationData e ph s otp w)"
        using Some True by (simp add: missingRegistration_def)
      ultimately show ?thesis using fmt lost by blast
    next
      case ne: False
      show ?thesis
      proof (cases "resolveOtpRecord (rd_email rd) otp (otps w)")
        case None
        then have "res = (w, [Send MsgInvalidOtp])"
          using fmt Some ne unfolding res_def otp_def handleRegistrationOTPVerification_def Let_def
          by simp
        with fmt Some ne None show ?thesis using nomatch by blast
      next
        case i: (Some i)
        show ?thesis
        proof (cases "otp_isUsed (otps w ! i)")
          case True
          then have "res = (w, [Send MsgOtpAlreadyUsed])"
            using fmt Some ne i
            unfolding res_def otp_def handleRegistrationOTPVerification_def Let_def
            by simp
          with fmt Some ne i True show ?thesis using used by blast
        next
          case nu: False
          show ?thesis
          proof (cases "now e > otp_expiresAt (otps w ! i)")
            case True
            then have "res = (w, [Send MsgOtpExpired])"
              using fmt Some ne i nu
              unfolding res_def otp_def handleRegistrationOTPVerification_def Let_def
              by simp
            with fmt Some ne i nu True show ?thesis using expired by blast
          next
            case False
            then have "res = completeRegistration e ph i rd
                    (case sessions w ph of None \<Rightarrow> s | Some fs \<Rightarrow> fs)
                    (w\<lparr>otps := (otps w)[i := (otps w ! i)\<lparr>otp_isUsed := True,
                                                          otp_usedAt := Some (now e)\<rparr>]\<rparr>)"
              using fmt Some ne i nu
              unfolding res_def otp_def handleRegistrationOTPVerification_def Let_def
              by simp
            moreover have "now e \<le> otp_expiresAt (otps w ! i)" using False by simp
            ultimately show ?thesis using fmt Some ne i nu consume by blast
          qed
        qed
      qed
    qed
  qed
qed

lemma tokenOr_nonempty: "generateToken e \<noteq> [] \<Longrightarrow> truthyStr (Some (tokenOr e t))"
  by (auto simp: tokenOr_def truthyStr_def strOf_def split: option.splits)

lemma digits_trim: "list_all isDigit t \<Longrightarrow> trim t = t"
proof -
  assume a: "list_all isDigit t"
  have b: "\<And>xs. list_all isDigit xs \<Longrightarrow> dropWhile isWhiteSpace xs = xs"
    by (case_tac xs) (auto simp: digit_not_space)
  have "list_all isDigit (rev t)" using a by (simp add: list_all_iff)
  with a b show ?thesis by (simp add: trim_def)
qed

lemma trim_trim_digits: "list_all isDigit (trim c) \<Longrightarrow> trim (trim c) = trim c"
  by (rule digits_trim)

subsection \<open>Completing the registration\<close>

lemma completeRegistration_failure:
  "registerUser e rd = Inl err \<Longrightarrow>
     completeRegistration e ph i rd s w
       = registrationFailed e ph i err s [OtpSave i True, CallRegisterUser rd] w"
  by (simp add: completeRegistration_def)

lemma completeRegistration_success:
  "registerUser e rd = Inr result \<Longrightarrow> notifySupportTeams e = None \<Longrightarrow>
     completeRegistration e ph i rd s w
       = (saveSession ph (registeredSession e result s) w,
          [OtpSave i True, CallRegisterUser rd, SessionSave, CallNotifySupportTeams,
           Send (MsgRegistrationSuccess (rd_name rd))])"
  by (simp add: completeRegistration_def Let_def)

lemma completeRegistration_notify_failure:
  "registerUser e rd = Inr result \<Longrightarrow> notifySupportTeams e = Some err \<Longrightarrow>
     completeRegistration e ph i rd s w
       = registrationFailed e ph i err (registeredSession e result s)
           [OtpSave i True, CallRegisterUser rd, SessionSave, CallNotifySupportTeams]
           (saveSession ph (registeredSession e result s) w)"
  by (simp add: completeRegistration_def Let_def)



lemma registeredSession_token:
  "generateToken e \<noteq> [] \<Longrightarrow> truthyStr (token (dataOrEmpty (registeredSession e result s)))"
  using tokenOr_nonempty[of e "res_token result"]
  by (simp add: registeredSession_def dataOrEmpty_def)

lemma completeRegistration_committed:
  assumes "sessions w ph = Some s"
      and "sessions (fst (completeRegistration e ph i rd s w)) ph = Some s'"
  shows "(state s' = state s \<and> token (dataOrEmpty s') = token (dataOrEmpty s))
         \<or> (\<exists>result. state s' = LOGGED_IN
               \<and> token (dataOrEmpty s') = token (dataOrEmpty (registeredSession e result s)))"
proof (cases "registerUser e rd")
  case (Inl err)
  then show ?thesis
    using assms
    by (auto simp: completeRegistration_failure registrationFailed_sessions dataOrEmpty_def
        split: option.splits)
next
  case (Inr result)
  show ?thesis
  proof (cases "notifySupportTeams e")
    case None
    with Inr assms show ?thesis
      by (auto simp: completeRegistration_success sessions_saveSession registeredSession_def)
  next
    case (Some err)
    with Inr assms have "state s' = LOGGED_IN
               \<and> token (dataOrEmpty s') = token (dataOrEmpty (registeredSession e result s))"
      by (auto simp: completeRegistration_notify_failure registrationFailed_sessions
          registeredSession_def dataOrEmpty_def)
    then show ?thesis by blast
  qed
qed

subsection \<open>Recovery of the payload\<close>








subsection \<open>What a verification does to the rows\<close>




subsection \<open>A failed registration gives the code back\<close>








subsection \<open>A code handed back after the user was created\<close>

text \<open>
  C2. The session of \<open>adaPhone\<close> awaits the code 1111. The message 1111 arrives:
  the row is marked used, \<^verbatim>\<open>registerUser\<close> creates the user and the session
  is stored as \<^verbatim>\<open>LOGGED_IN\<close>; then \<^verbatim>\<open>notifySupportTeams\<close>
  throws. The \<^verbatim>\<open>catch\<close> of the registration answers that the
  registration failed, writes the row back unused and raises the waiting flag of the
  session. The next message 1111 is therefore taken as a code again, the payload is read
  back from the snapshot of the row, and the same code is accepted a second time:
  \<^verbatim>\<open>registerUser\<close> is called again and the success message is sent, where
  the code should have been refused as already used.
\<close>

theorem C2_code_accepted_again_after_user_created:
  "state registeringSession = REGISTERING
   \<and> otps (worldOf registeringSession [adaOtp]) = [adaOtp]
   \<and> otp_code adaOtp = ''1111'' \<and> \<not> otp_isUsed adaOtp
   \<and> registerUser notifyDownEnv adaData = Inr \<lparr>res_userId = Some 7, res_token = Some ''token-7''\<rparr>
   \<and> notifySupportTeams notifyDownEnv = Some ''support service down''
   \<and> snd (handleCustomerMessage notifyDownEnv adaPhone ''1111''
            (worldOf registeringSession [adaOtp]))
       = [SessionSave, OtpSave 0 True, CallRegisterUser adaData, SessionSave,
          CallNotifySupportTeams, Send (MsgRegistrationFailed ''support service down''),
          OtpSave 0 False, SessionSave]
   \<and> otps afterNotifyFailure = [adaOtp]
   \<and> sessions afterNotifyFailure adaPhone
       = Some \<lparr>state = LOGGED_IN,
               data = Some (emptyData\<lparr>userId := Some 7, token := Some ''token-7'',
                                       tokenLastUsed := Some 1000,
                                       waitingForOTPVerification := Some True,
                                       emailSendFailed := Some False\<rparr>),
               lastActivity = 1000, supportTeamId = None\<rparr>
   \<and> snd (handleCustomerMessage laterEnv adaPhone ''1111'' afterNotifyFailure)
       = [SessionSave, SessionSave, OtpSave 0 True, CallRegisterUser adaData, SessionSave,
          CallNotifySupportTeams, Send (MsgRegistrationSuccess ''Ada'')]
   \<and> Send MsgOtpAlreadyUsed
       \<notin> set (snd (handleCustomerMessage laterEnv adaPhone ''1111'' afterNotifyFailure))"
  by code_simp

subsection \<open>Issuing a code twice\<close>

text \<open>
  C3. The session of \<open>adaPhone\<close> awaits the code 1111 issued for
  \<open>ada@example.com\<close>, unused and unexpired. A second phone, which has no session,
  submits a registration for the same address: \<^verbatim>\<open>handleRegistration\<close> adds
  the code 2222 and leaves 1111 unused, so two unused, unexpired codes exist for the
  address, and the message 1111 from the first phone afterwards completes the
  registration. On the resend path the same situation marks 1111 used, and the message
  1111 is refused.
\<close>

theorem C3_second_submission_keeps_old_code:
  "sessions (worldOf registeringSession [adaOtp]) otherPhone = None
   \<and> map otp_email (otps (worldOf registeringSession [adaOtp])) = [''ada@example.com'']
   \<and> map otp_code (otps (worldOf registeringSession [adaOtp])) = [''1111'']
   \<and> snd (handleCustomerMessage registerEnv otherPhone ''register Ada ada@example.com s3cret!''
            (worldOf registeringSession [adaOtp]))
       = [SessionSave, SessionSave, OtpCreate ''ada@example.com'' ''2222'',
          CallSendOTPEmail ''ada@example.com'' ''2222'', Send (MsgOtpSent ''ada@example.com''),
          SessionSave]
   \<and> map otp_email (otps afterSecondPhone) = [''ada@example.com'', ''ada@example.com'']
   \<and> map otp_purpose (otps afterSecondPhone) = [''registration'', ''registration'']
   \<and> map otp_code (otps afterSecondPhone) = [''1111'', ''2222'']
   \<and> map otp_isUsed (otps afterSecondPhone) = [False, False]
   \<and> list_all (\<lambda>r. now laterEnv \<le> otp_expiresAt r) (otps afterSecondPhone)
   \<and> snd (handleCustomerMessage laterEnv adaPhone ''1111'' afterSecondPhone)
       = [SessionSave, OtpSave 0 True, CallRegisterUser adaData, SessionSave,
          CallNotifySupportTeams, Send (MsgRegistrationSuccess ''Ada'')]
   \<and> snd (handleCustomerMessage okEnv adaPhone ''resend'' (worldOf registeringSession [adaOtp]))
       = [SessionSave, OtpUpdateUsed ''ada@example.com'', OtpCreate ''ada@example.com'' ''2222'',
          CallSendOTPEmail ''ada@example.com'' ''2222'', Send (MsgOtpResent ''ada@example.com''),
          SessionSave]
   \<and> map otp_code (otps afterResend) = [''1111'', ''2222'']
   \<and> map otp_isUsed (otps afterResend) = [True, False]
   \<and> snd (handleCustomerMessage laterEnv adaPhone ''1111'' afterResend)
       = [SessionSave, Send MsgOtpAlreadyUsed]"
  by code_simp

subsection \<open>State and data at the commit points\<close>

text \<open>
  C7, as claimed, fails. A file without order caption arrives for a session in state
  \<^verbatim>\<open>NEW\<close> with empty data: the webhook commits the session with the pending
  attachment in its data, still in state \<^verbatim>\<open>NEW\<close>.
\<close>

theorem C7_new_session_with_data_counterexample:
  "sessions (worldOf newSession []) adaPhone = Some newSession
   \<and> state newSession = NEW \<and> data newSession = Some emptyData
   \<and> map_option state
        (sessions (fst (webhookMediaPending okEnv adaPhone ''https://files/rx.jpg'' None
                          (worldOf newSession []))) adaPhone) = Some NEW
   \<and> map_option data
        (sessions (fst (webhookMediaPending okEnv adaPhone ''https://files/rx.jpg'' None
                          (worldOf newSession []))) adaPhone) \<noteq> Some (Some emptyData)
   \<and> map_option (pendingPrescriptionUrl \<circ> dataOrEmpty)
        (sessions (fst (webhookMediaPending okEnv adaPhone ''https://files/rx.jpg'' None
                          (worldOf newSession []))) adaPhone)
       = Some (Some ''https://files/rx.jpg'')"
  by code_simp



lemma handleLogin_committed:
  assumes "sessions w ph = Some s" and "state s \<noteq> LOGGED_IN" and "generateToken e \<noteq> []"
      and "sessions (fst (handleLogin e ph s p w)) ph = Some s'" and "state s' = LOGGED_IN"
  shows "truthyStr (token (dataOrEmpty s'))"
proof -
  have t: "\<And>x. truthyStr (Some (tokenOr e x))" using assms(3) by (rule tokenOr_nonempty)
  show ?thesis
    using assms(1,2,4,5) t
    by (auto simp: handleLogin_def Let_def sessions_saveSession dataOrEmpty_def
        split: if_splits option.splits sum.splits)
qed

lemma verification_committed:
  assumes stored: "sessions w ph = Some s" and ns: "state s \<noteq> LOGGED_IN"
      and tok: "generateToken e \<noteq> []"
      and after: "sessions (fst (handleRegistrationOTPVerification e ph s otpCode w)) ph = Some s'"
      and li: "state s' = LOGGED_IN"
  shows "truthyStr (token (dataOrEmpty s'))"
proof (cases e ph s otpCode w rule: verification_cases)
  case format
  with stored after ns li show ?thesis by simp
next
  case lost
  from registrationLost_state[of ph w MsgRegistrationSessionExpired MsgErrorVerifyingOtp]
    lost(3) stored after
  have "state s' = state s" by simp
  with ns li show ?thesis by simp
next
  case (nomatch rd)
  with stored after ns li show ?thesis by simp
next
  case (used rd i)
  with stored after ns li show ?thesis by simp
next
  case (expired rd i)
  with stored after ns li show ?thesis by simp
next
  case (consume rd i)
  let ?w = "w\<lparr>otps := (otps w)[i := (otps w ! i)\<lparr>otp_isUsed := True,
                                              otp_usedAt := Some (now e)\<rparr>]\<rparr>"
  have sw: "sessions ?w ph = Some s" using stored by simp
  have h: "handleRegistrationOTPVerification e ph s otpCode w = completeRegistration e ph i rd s ?w"
    using consume(7) stored by simp
  from completeRegistration_committed[OF sw, of e i rd s'] after h
  have "(state s' = state s \<and> token (dataOrEmpty s') = token (dataOrEmpty s))
         \<or> (\<exists>result. state s' = LOGGED_IN
               \<and> token (dataOrEmpty s') = token (dataOrEmpty (registeredSession e result s)))"
    by simp
  with ns li registeredSession_token[OF tok] show ?thesis by auto
qed

lemma idle_committed:
  assumes "sessionIdleHandling e ph s w = ((s', w', effs), stop)" and "state s = LOGGED_IN"
      and "generateToken e \<noteq> []"
  shows "sessions w' ph = Some s'
         \<and> (state s' = LOGGED_IN \<and> truthyStr (token (dataOrEmpty s'))
             \<or> state s' = NEW \<and> data s' = Some emptyData)"
  using assms
  by (auto simp: sessionIdleHandling_def Let_def sessions_saveSession dataOrEmpty_def
      truthyStr_def split: if_splits option.splits)

lemma handleLogout_committed:
  "sessions (fst (handleLogout e ph s w)) ph = Some (s\<lparr>state := NEW, data := Some emptyData\<rparr>)"
  by (simp add: handleLogout_def Let_def sessions_saveSession)

text \<open>
  C7, amended. With a token generator that returns a non-empty token: a session that
  was not \<^verbatim>\<open>LOGGED_IN\<close> and is \<^verbatim>\<open>LOGGED_IN\<close> after
  \<^verbatim>\<open>handleLogin\<close> or after the verification of a registration code has a
  non-empty token in its data; the idle handling of a \<^verbatim>\<open>LOGGED_IN\<close>
  session commits either \<^verbatim>\<open>LOGGED_IN\<close> with a non-empty token or
  \<^verbatim>\<open>NEW\<close> with empty data; \<^verbatim>\<open>handleLogout\<close> commits
  \<^verbatim>\<open>NEW\<close> with empty data.
\<close>

theorem C7_state_and_data_at_commit:
  assumes tok: "generateToken e \<noteq> []"
  shows "(sessions w ph = Some s \<and> state s \<noteq> LOGGED_IN
            \<and> sessions (fst (handleLogin e ph s p w)) ph = Some s' \<and> state s' = LOGGED_IN
          \<longrightarrow> truthyStr (token (dataOrEmpty s')))
       \<and> (sessions w ph = Some s \<and> state s \<noteq> LOGGED_IN
            \<and> sessions (fst (handleRegistrationOTPVerification e ph s otpCode w)) ph = Some s'
            \<and> state s' = LOGGED_IN
          \<longrightarrow> truthyStr (token (dataOrEmpty s')))
       \<and> (sessionIdleHandling e ph s w = ((s', w', effs), stop) \<and> state s = LOGGED_IN
          \<longrightarrow> sessions w' ph = Some s'
              \<and> (state s' = LOGGED_IN \<and> truthyStr (token (dataOrEmpty s'))
                  \<or> state s' = NEW \<and> data s' = Some emptyData))
       \<and> sessions (fst (handleLogout e ph s w)) ph
           = Some (s\<lparr>state := NEW, data := Some emptyData\<rparr>)"
proof -
  have a: "sessions w ph = Some s \<and> state s \<noteq> LOGGED_IN
            \<and> sessions (fst (handleLogin e ph s p w)) ph = Some s' \<and> state s' = LOGGED_IN
          \<longrightarrow> truthyStr (token (dataOrEmpty s'))"
  proof (intro impI, elim conjE)
    assume "sessions w ph = Some s" "state s \<noteq> LOGGED_IN"
      "sessions (fst (handleLogin e ph s p w)) ph = Some s'" "state s' = LOGGED_IN"
    from handleLogin_committed[OF this(1,2) tok this(3,4)]
    show "truthyStr (token (dataOrEmpty s'))" .
  qed
  have b: "sessions w ph = Some s \<and> state s \<noteq> LOGGED_IN
            \<and> sessions (fst (handleRegistrationOTPVerification e ph s otpCode w)) ph = Some s'
            \<and> state s' = LOGGED_IN
          \<longrightarrow> truthyStr (token (dataOrEmpty s'))"
  proof (intro impI, elim conjE)
    assume "sessions w ph = Some s" "state s \<noteq> LOGGED_IN"
      "sessions (fst (handleRegistrationOTPVerification e ph s otpCode w)) ph = Some s'"
      "state s' = LOGGED_IN"
    from verification_committed[OF this(1,2) tok this(3,4)]
    show "truthyStr (token (dataOrEmpty s'))" .
  qed
  have c: "sessionIdleHandling e ph s w = ((s', w', effs), stop) \<and> state s = LOGGED_IN
          \<longrightarrow> sessions w' ph = Some s'
              \<and> (state s' = LOGGED_IN \<and> truthyStr (token (dataOrEmpty s'))
                  \<or> state s' = NEW \<and> data s' = Some emptyData)"
  proof (intro impI, elim conjE)
    assume "sessionIdleHandling e ph s w = ((s', w', effs), stop)" "state s = LOGGED_IN"
    from idle_committed[OF this tok]
    show "sessions w' ph = Some s'
              \<and> (state s' = LOGGED_IN \<and> truthyStr (token (dataOrEmpty s'))
                  \<or> state s' = NEW \<and> data s' = Some emptyData)" .
  qed
  from a b c handleLogout_committed[of e ph s w] show ?thesis by (intro conjI)
qed

theorem C7_state_and_data_at_commit_witness:
  "generateToken okEnv \<noteq> []
   \<and> sessions (worldOf newSession []) adaPhone = Some newSession
   \<and> state newSession \<noteq> LOGGED_IN
   \<and> map_option state (sessions (fst (handleLogin okEnv adaPhone newSession loginParams
                                        (worldOf newSession []))) adaPhone) = Some LOGGED_IN
   \<and> truthyStr (token (dataOrEmpty (storedSession
        (fst (handleLogin okEnv adaPhone newSession loginParams (worldOf newSession [])))
        adaPhone)))
   \<and> sessions (fst (handleLogout okEnv adaPhone loggedInSession (worldOf loggedInSession [])))
        adaPhone = Some (loggedInSession\<lparr>state := NEW, data := Some emptyData\<rparr>)"
proof -
  have tok: "generateToken okEnv \<noteq> []" by code_simp
  have stored: "sessions (worldOf newSession []) adaPhone = Some newSession" by code_simp
  have ns: "state newSession \<noteq> LOGGED_IN" by code_simp
  have after: "sessions (fst (handleLogin okEnv adaPhone newSession loginParams
                                (worldOf newSession []))) adaPhone
       = Some (storedSession
           (fst (handleLogin okEnv adaPhone newSession loginParams (worldOf newSession [])))
           adaPhone)"
    by code_simp
  have li: "state (storedSession
        (fst (handleLogin okEnv adaPhone newSession loginParams (worldOf newSession [])))
        adaPhone) = LOGGED_IN"
    by code_simp
  note c7 = C7_state_and_data_at_commit[OF tok, where w = "worldOf newSession []"
      and ph = adaPhone and s = newSession and p = loginParams
      and s' = "storedSession
        (fst (handleLogin okEnv adaPhone newSession loginParams (worldOf newSession [])))
        adaPhone"]
  have t: "truthyStr (token (dataOrEmpty (storedSession
        (fst (handleLogin okEnv adaPhone newSession loginParams (worldOf newSession [])))
        adaPhone)))"
  proof (rule c7[THEN conjunct1, THEN mp])
    from stored ns after li
    show "sessions (worldOf newSession []) adaPhone = Some newSession
          \<and> state newSession \<noteq> LOGGED_IN
          \<and> sessions (fst (handleLogin okEnv adaPhone newSession loginParams
                                (worldOf newSession []))) adaPhone
              = Some (storedSession
                  (fst (handleLogin okEnv adaPhone newSession loginParams (worldOf newSession [])))
                  adaPhone)
          \<and> state (storedSession
                (fst (handleLogin okEnv adaPhone newSession loginParams (worldOf newSession [])))
                adaPhone) = LOGGED_IN"
      by (intro conjI)
  qed
  have st: "map_option state (sessions (fst (handleLogin okEnv adaPhone newSession loginParams
                                        (worldOf newSession []))) adaPhone) = Some LOGGED_IN"
    using after li by simp
  have lo: "sessions (fst (handleLogout okEnv adaPhone loggedInSession
                (worldOf loggedInSession []))) adaPhone
        = Some (loggedInSession\<lparr>state := NEW, data := Some emptyData\<rparr>)"
    using C7_state_and_data_at_commit[OF tok, where s = loggedInSession
        and w = "worldOf loggedInSession []" and ph = adaPhone,
        THEN conjunct2, THEN conjunct2, THEN conjunct2] .
  from tok stored ns st t lo show ?thesis by (intro conjI)
qed

end
